theory Spec2Isabelle
  imports Complex_Main "HOL-Library.AList"
begin

section \<open>Weight cells\<close>

text \<open>
  Modelled from the spec: the weight classes (\<open>weight.h\<close>) are not among the sources.  An
  unaveraged weight cell holds one scalar; \<open>Set\<close> overwrites it and \<open>Get\<close> reads it, so the
  cell is represented by the scalar itself.  An averaged cell carries the true weight, the
  cached partial sum of the average and the time of its last update.  Scalars are real
  numbers and times are natural numbers.
\<close>

record AveragedWeight =
  true_weight :: real
  averaged_weight :: real
  last_update_time :: nat

text \<open>Modelled from the spec: a cell is created at zero when its table is constructed.\<close>

definition zero_cell :: AveragedWeight where
  "zero_cell = \<lparr>true_weight = 0, averaged_weight = 0, last_update_time = 0\<rparr>"

text \<open>
  Modelled from the spec: \<open>get()\<close> of an averaged cell is its current true weight, the one
  used for inference during training.
\<close>

definition Get :: "AveragedWeight \<Rightarrow> real" where
  "Get c = true_weight c"

text \<open>
  Modelled from the spec: the weight classes (\<open>weight.h\<close>) are not among the sources.
  A stale cell is frozen forward to the current clock by
  \<open>averaged_weight + (current_time - last_update_time) * true_weight\<close>.
\<close>

definition Freshen :: "AveragedWeight \<Rightarrow> nat \<Rightarrow> AveragedWeight" where
  "Freshen c current_time =
     (if last_update_time c = current_time then c
      else c\<lparr>averaged_weight :=
                 averaged_weight c
                 + (real current_time - real (last_update_time c)) * true_weight c,
             last_update_time := current_time\<rparr>)"

text \<open>
  Modelled from the spec: \<open>update(delta, current_time)\<close> freshens the average, accumulates
  the delta into the true weight and advances the time stamp.
\<close>

definition Update :: "AveragedWeight \<Rightarrow> real \<Rightarrow> nat \<Rightarrow> AveragedWeight" where
  "Update c delta current_time =
     (let c' = Freshen c current_time
      in c'\<lparr>true_weight := true_weight c' + delta\<rparr>)"

text \<open>
  Modelled from the spec: \<open>get_average(current_time)\<close> freshens the cell and normalises the
  accumulated sum by the current time; at time 0 it returns 0 without dividing.  The call
  is not const in the source, so the freshened cell is returned next to the value.
\<close>

definition GetAverage :: "AveragedWeight \<Rightarrow> nat \<Rightarrow> real \<times> AveragedWeight" where
  "GetAverage c current_time =
     (let c' = Freshen c current_time
      in (if current_time = 0 then 0 else averaged_weight c' / real current_time, c'))"

text \<open>
  Modelled from the spec: the division that \<open>get_average\<close> guards.  A division of the
  source by a zero divisor has no result, whereas \<open>x / 0 = 0\<close> in HOL; so the division is
  written as a step that fails on a zero divisor.
\<close>

datatype arith_error = DivisionByZero

definition checked_divide :: "real \<Rightarrow> nat \<Rightarrow> arith_error + real" where
  "checked_divide x n = (if n = 0 then Inl DivisionByZero else Inr (x / real n))"

text \<open>
  Modelled from the spec: \<open>get_average(current_time)\<close> step by step, the cell freshened
  first, 0 returned at time 0 and the accumulated sum divided by the current time
  otherwise, with the division as the step that can fail.
\<close>

definition GetAverage_checked ::
  "AveragedWeight \<Rightarrow> nat \<Rightarrow> arith_error + (real \<times> AveragedWeight)"
where
  "GetAverage_checked c current_time =
     (let c' = Freshen c current_time
      in if current_time = 0 then Inr (0, c')
         else (case checked_divide (averaged_weight c') current_time of
                 Inl e \<Rightarrow> Inl e
               | Inr v \<Rightarrow> Inr (v, c')))"

section \<open>Undefined accesses and failures as values\<close>

datatype error = ParseFailure | OutOfRange

text \<open>
  A result is a value or the reason why there is none: \<open>ParseFailure\<close> is the null pointer
  that \<open>Read\<close> returns, \<open>OutOfRange\<close> an access outside of a dense table or a repeated
  field, which the source leaves undefined.  \<open>and_then\<close> sequences two steps and
  \<open>for_each\<close> is a loop that stops at the first step with no value.
\<close>

definition and_then :: "error + 'a \<Rightarrow> ('a \<Rightarrow> error + 'b) \<Rightarrow> error + 'b" where
  "and_then r f = (case r of Inl e \<Rightarrow> Inl e | Inr x \<Rightarrow> f x)"

text \<open>
  Modelled from the spec: the dense table of \<open>table.h\<close> has a fixed capacity and indexing
  outside of it is undefined behaviour; the model makes such an access the value
  \<open>Inl OutOfRange\<close>.
\<close>

definition index_at :: "'a list \<Rightarrow> nat \<Rightarrow> error + 'a" where
  "index_at xs i = (if i < length xs then Inr (xs ! i) else Inl OutOfRange)"

text \<open>
  Modelled from the spec: the mutable access of a dense table, by position; the write
  through the reference gives the table with that position replaced, and outside of the
  capacity it is undefined as the read is.
\<close>

definition assign_at :: "'a list \<Rightarrow> nat \<Rightarrow> 'a \<Rightarrow> error + 'a list" where
  "assign_at xs i v = (if i < length xs then Inr (xs[i := v]) else Inl OutOfRange)"

fun for_each :: "'i list \<Rightarrow> ('i \<Rightarrow> 's \<Rightarrow> error + 's) \<Rightarrow> 's \<Rightarrow> error + 's" where
  "for_each [] body s = Inr s"
| "for_each (i # is) body s = and_then (body i s) (for_each is body)"

text \<open>
  Modelled from the spec: a sparse table (\<open>table.h\<close>) is a string-keyed hash table; the
  mutable access creates the entry when it is absent.  The model keeps the entries in an
  association list (its order stands for the iteration order), \<open>mutable\<close> reads the entry a
  reference would denote and \<open>AList.update\<close> writes it back.
\<close>

definition mutable :: "('k \<times> 'v) list \<Rightarrow> 'k \<Rightarrow> 'v \<Rightarrow> 'v" where
  "mutable tbl k dflt = (case map_of tbl k of None \<Rightarrow> dflt | Some v \<Rightarrow> v)"

section \<open>Models\<close>

text \<open>
  Modelled from the spec: the classifier templates (\<open>multinomial_perceptron.h\<close>) and the
  table templates (\<open>table.h\<close>) are not among the sources.  A model owns its table and the
  two sizes; an averaged model owns the clock as well.  A dense table is a list, indexed by
  position; a sparse table is an association list under string keys.  The three
  topologies are the table types \<open>'c list list\<close> (dense outer, dense inner),
  \<open>(string \<times> 'c list) list\<close> (sparse outer, dense inner) and
  \<open>(string \<times> (string \<times> 'c) list) list\<close> (sparse outer, sparse inner).
\<close>

record 'tbl perceptron =
  outer_size :: nat
  inner_size :: nat
  table :: 'tbl

record 'tbl averaged_perceptron = "'tbl perceptron" +
  time :: nat

text \<open>
  Modelled from the spec: the base constructor (\<open>multinomial_perceptron.h\<close>) of a model
  with a dense outer table records the two sizes and creates all the cells, at zero.
\<close>

definition Dense_Base :: "nat \<Rightarrow> nat \<Rightarrow> real list list perceptron" where
  "Dense_Base n m = \<lparr>outer_size = n, inner_size = m, table = replicate n (replicate m 0)\<rparr>"

text \<open>
  Modelled from the spec: the base constructor of a model with a sparse outer table
  records the two sizes and creates no entry.
\<close>

definition Sparse_Base :: "nat \<Rightarrow> nat \<Rightarrow> (string \<times> 'row) list perceptron" where
  "Sparse_Base n m = \<lparr>outer_size = n, inner_size = m, table = []\<rparr>"

text \<open>
  What the constructors establish and the operations keep: a dense table has the recorded
  sizes, a hash table has no key twice, and a dense inner table has the inner size.
\<close>

definition dense_wf :: "('c list list, 'z) perceptron_scheme \<Rightarrow> bool" where
  "dense_wf m \<longleftrightarrow>
     length (table m) = outer_size m \<and> (\<forall>row \<in> set (table m). length row = inner_size m)"

definition sparse_dense_wf :: "((string \<times> 'c list) list, 'z) perceptron_scheme \<Rightarrow> bool" where
  "sparse_dense_wf m \<longleftrightarrow>
     distinct (map fst (table m)) \<and> (\<forall>row \<in> set (map snd (table m)). length row = inner_size m)"

definition sparse_wf :: "((string \<times> (string \<times> 'c) list) list, 'z) perceptron_scheme \<Rightarrow> bool" where
  "sparse_wf m \<longleftrightarrow>
     distinct (map fst (table m)) \<and> (\<forall>inner \<in> set (map snd (table m)). distinct (map fst inner))"

section \<open>Freezing an averaged model\<close>

text \<open>
  The three constructors of \<open>multinomial_perceptron.cc\<close> that build an unaveraged model from
  an averaged one.  The averaged model is passed by a non-const pointer and \<open>GetAverage\<close>
  freshens the cell it reads, so each constructor returns the averaged model next to the
  new one.
\<close>

subsection \<open>Dense outer, dense inner\<close>

text \<open>
  The step \<^verbatim>\<open>ref[j].Set(avg_ref[j].GetAverage(time))\<close> of the inner loop, on the row
  \<open>ref\<close> of the new table and the row \<open>avg_ref\<close> of the averaged one.
\<close>

definition freeze_cell ::
  "nat \<Rightarrow> nat \<Rightarrow> real list \<times> AveragedWeight list \<Rightarrow> error + (real list \<times> AveragedWeight list)"
where
  "freeze_cell now j = (\<lambda>(ref, avg_ref).
     and_then (index_at avg_ref j) (\<lambda>c.
       case GetAverage c now of (v, c') \<Rightarrow>
         and_then (assign_at ref j v) (\<lambda>ref'. Inr (ref', avg_ref[j := c']))))"

text \<open>
  The body of the outer loop: \<^verbatim>\<open>auto &ref = table_[i]; auto &avg_ref = avg->table_[i];\<close>
  and the inner loop over \<^verbatim>\<open>j < avg->InnerSize()\<close>.
\<close>

definition freeze_row ::
  "nat \<Rightarrow> nat \<Rightarrow> nat \<Rightarrow> real list list \<times> AveragedWeight list list
     \<Rightarrow> error + (real list list \<times> AveragedWeight list list)"
where
  "freeze_row now inner i = (\<lambda>(tbl, avg_tbl).
     and_then (index_at tbl i) (\<lambda>ref.
     and_then (index_at avg_tbl i) (\<lambda>avg_ref.
     and_then (for_each [0..<inner] (freeze_cell now) (ref, avg_ref)) (\<lambda>(ref', avg_ref').
       Inr (tbl[i := ref'], avg_tbl[i := avg_ref'])))))"

text \<open>
  \<^verbatim>\<open>DenseMultinomialPerceptron::MultinomialPerceptronTpl(DenseMultinomialAveragedPerceptron *avg)\<close>:
  the base is constructed with the averaged model's sizes, the clock is read once, and the
  outer loop runs over \<^verbatim>\<open>i < avg->OuterSize()\<close>.
\<close>

definition Dense_MultinomialPerceptronTpl ::
  "AveragedWeight list list averaged_perceptron
     \<Rightarrow> error + (real list list perceptron \<times> AveragedWeight list list averaged_perceptron)"
where
  "Dense_MultinomialPerceptronTpl avg =
     (let base = Dense_Base (outer_size avg) (inner_size avg);
          now = time avg
      in and_then
           (for_each [0..<outer_size avg] (freeze_row now (inner_size avg)) (table base, table avg))
           (\<lambda>(tbl, avg_tbl). Inr (base\<lparr>table := tbl\<rparr>, avg\<lparr>table := avg_tbl\<rparr>)))"


subsection \<open>Sparse outer, dense inner\<close>

text \<open>
  The loop over the entries of \<^verbatim>\<open>avg->table_\<close>: \<^verbatim>\<open>auto &ref = table_[it->first];\<close>
  creates the row of the new table (a dense inner table of the inner size, at zero), and
  the inner loop over \<^verbatim>\<open>j < InnerSize()\<close> is the one of the dense constructor, on
  \<^verbatim>\<open>it->second\<close>.  The entries of the averaged table are returned as the loop leaves them.
\<close>

fun freeze_sd_entries ::
  "nat \<Rightarrow> nat \<Rightarrow> (string \<times> AveragedWeight list) list \<Rightarrow> (string \<times> real list) list
     \<Rightarrow> error + ((string \<times> real list) list \<times> (string \<times> AveragedWeight list) list)"
where
  "freeze_sd_entries now inner [] tbl = Inr (tbl, [])"
| "freeze_sd_entries now inner (it # rest) tbl =
     and_then
       (for_each [0..<inner] (freeze_cell now) (mutable tbl (fst it) (replicate inner 0), snd it))
       (\<lambda>(ref, avg_ref).
          and_then (freeze_sd_entries now inner rest (AList.update (fst it) ref tbl))
            (\<lambda>(tbl', rest'). Inr (tbl', (fst it, avg_ref) # rest')))"

text \<open>
  \<^verbatim>\<open>SparseDenseMultinomialPerceptron::MultinomialPerceptronTpl(SparseDenseMultinomialAveragedPerceptron *avg)\<close>.
\<close>

definition SparseDense_MultinomialPerceptronTpl ::
  "(string \<times> AveragedWeight list) list averaged_perceptron
     \<Rightarrow> error + ((string \<times> real list) list perceptron
                 \<times> (string \<times> AveragedWeight list) list averaged_perceptron)"
where
  "SparseDense_MultinomialPerceptronTpl avg =
     (let base = Sparse_Base (outer_size avg) (inner_size avg);
          now = time avg
      in and_then (freeze_sd_entries now (inner_size base) (table avg) (table base))
           (\<lambda>(tbl, avg_tbl). Inr (base\<lparr>table := tbl\<rparr>, avg\<lparr>table := avg_tbl\<rparr>)))"

subsection \<open>Sparse outer, sparse inner\<close>

text \<open>
  The inner loop over the cells of \<^verbatim>\<open>it->second\<close>: a cell under the empty label is
  skipped (\<^verbatim>\<open>if (iit->first.empty()) continue;\<close>), any other is averaged and stored by
  \<^verbatim>\<open>ref[iit->first].Set(iit->second.GetAverage(time))\<close>, which creates the cell of the new
  inner table.
\<close>

fun freeze_ss_cells ::
  "nat \<Rightarrow> (string \<times> AveragedWeight) list \<Rightarrow> (string \<times> real) list
     \<Rightarrow> (string \<times> real) list \<times> (string \<times> AveragedWeight) list"
where
  "freeze_ss_cells now [] ref = (ref, [])"
| "freeze_ss_cells now (iit # rest) ref =
     (if fst iit = [] then
        (case freeze_ss_cells now rest ref of (ref', rest') \<Rightarrow> (ref', iit # rest'))
      else
        (case GetAverage (snd iit) now of (v, c') \<Rightarrow>
           (case freeze_ss_cells now rest (AList.update (fst iit) v ref) of
              (ref', rest') \<Rightarrow> (ref', (fst iit, c') # rest'))))"

text \<open>
  The outer loop over the entries of \<^verbatim>\<open>avg->table_\<close>; \<^verbatim>\<open>auto &ref = table_[it->first];\<close>
  creates an empty inner table in the new model.
\<close>

fun freeze_ss_entries ::
  "nat \<Rightarrow> (string \<times> (string \<times> AveragedWeight) list) list \<Rightarrow> (string \<times> (string \<times> real) list) list
     \<Rightarrow> (string \<times> (string \<times> real) list) list \<times> (string \<times> (string \<times> AveragedWeight) list) list"
where
  "freeze_ss_entries now [] tbl = (tbl, [])"
| "freeze_ss_entries now (it # rest) tbl =
     (case freeze_ss_cells now (snd it) (mutable tbl (fst it) []) of (ref, avg_inner) \<Rightarrow>
        (case freeze_ss_entries now rest (AList.update (fst it) ref tbl) of
           (tbl', rest') \<Rightarrow> (tbl', (fst it, avg_inner) # rest')))"

text \<open>
  \<^verbatim>\<open>SparseMultinomialPerceptron::MultinomialPerceptronTpl(SparseMultinomialAveragedPerceptron *avg)\<close>.
\<close>

definition Sparse_MultinomialPerceptronTpl ::
  "(string \<times> (string \<times> AveragedWeight) list) list averaged_perceptron
     \<Rightarrow> (string \<times> (string \<times> real) list) list perceptron
        \<times> (string \<times> (string \<times> AveragedWeight) list) list averaged_perceptron"
where
  "Sparse_MultinomialPerceptronTpl avg =
     (let base = Sparse_Base (outer_size avg) (inner_size avg);
          now = time avg
      in case freeze_ss_entries now (table avg) (table base) of
           (tbl, avg_tbl) \<Rightarrow> (base\<lparr>table := tbl\<rparr>, avg\<lparr>table := avg_tbl\<rparr>))"

section \<open>Serialization\<close>

text \<open>
  Modelled from the spec: the message classes generated from the schema are not among the
  sources; a message is the record of its fields: the metadata string, the inner size and the table (a repeated
  field is a list, a map field an association list).  The container format is opaque:
  \<open>ParseFromIstream\<close> and \<open>SerializeToOstream\<close> are parameters of the model.  A parser
  returns \<open>None\<close> when it rejects the stream, a serializer returns \<open>None\<close> when the stream
  does not take the bytes.
\<close>

record 'tbl perceptron_pb =
  metadata :: string
  pb_inner_size :: nat
  pb_table :: 'tbl



text \<open>A message as its default constructor leaves it.\<close>

definition empty_pb :: "'a list perceptron_pb" where
  "empty_pb = \<lparr>metadata = [], pb_inner_size = 0, pb_table = []\<rparr>"

subsection \<open>Dense outer, dense inner\<close>

text \<open>
  The step \<^verbatim>\<open>inner_table[j].Set(inner_table_pb.table(j))\<close>; the accessor of a repeated
  field is undefined outside of the field's size.
\<close>

definition read_cell :: "real list \<Rightarrow> nat \<Rightarrow> real list \<Rightarrow> error + real list" where
  "read_cell inner_table_pb j inner_table =
     and_then (index_at inner_table_pb j) (\<lambda>v. assign_at inner_table j v)"

text \<open>
  The body of the outer loop of \<open>Read\<close>: \<^verbatim>\<open>model->table_[i]\<close>, \<^verbatim>\<open>pb.table(i)\<close> and the
  inner loop over \<^verbatim>\<open>j < inner_size\<close>.
\<close>

definition read_row ::
  "real list list perceptron_pb \<Rightarrow> nat \<Rightarrow> nat \<Rightarrow> real list list \<Rightarrow> error + real list list"
where
  "read_row pb inner i tbl =
     and_then (index_at tbl i) (\<lambda>inner_table.
     and_then (index_at (pb_table pb) i) (\<lambda>inner_table_pb.
     and_then (for_each [0..<inner] (read_cell inner_table_pb) inner_table) (\<lambda>inner_table'.
       Inr (tbl[i := inner_table']))))"

text \<open>
  \<^verbatim>\<open>DenseMultinomialPerceptron::Read(std::istream &istrm)\<close>: a null pointer when the
  message does not parse; otherwise a new model of \<^verbatim>\<open>pb.table_size()\<close> by
  \<^verbatim>\<open>pb.inner_size()\<close>, filled row by row.
\<close>

definition Dense_Read ::
  "('istream \<Rightarrow> real list list perceptron_pb option) \<Rightarrow> 'istream
     \<Rightarrow> error + real list list perceptron"
where
  "Dense_Read ParseFromIstream istrm =
     (case ParseFromIstream istrm of
        None \<Rightarrow> Inl ParseFailure
      | Some pb \<Rightarrow>
          (let outer = length (pb_table pb);
               inner = pb_inner_size pb;
               model = Dense_Base outer inner
           in and_then (for_each [0..<outer] (read_row pb inner) (table model))
                (\<lambda>tbl. Inr (model\<lparr>table := tbl\<rparr>))))"

text \<open>
  The body of the loop of \<open>Write\<close>: \<^verbatim>\<open>pb.add_table()\<close> appends an inner message and
  \<^verbatim>\<open>add_table(iit->Get())\<close> appends each cell of the row to it.
\<close>

definition write_row :: "real list \<Rightarrow> real list list \<Rightarrow> real list list" where
  "write_row row tbl_pb = tbl_pb @ [fold (\<lambda>w inner_table_pb. inner_table_pb @ [w]) row []]"

text \<open>
  The message that \<^verbatim>\<open>DenseMultinomialPerceptron::Write\<close> builds: the metadata, the inner
  size and one inner message for each row.
\<close>

definition Dense_Write_pb :: "real list list perceptron \<Rightarrow> string \<Rightarrow> real list list perceptron_pb" where
  "Dense_Write_pb m md =
     (empty_pb\<lparr>metadata := md, pb_inner_size := inner_size m\<rparr>)
       \<lparr>pb_table := fold write_row (table m) []\<rparr>"

text \<open>
  \<^verbatim>\<open>DenseMultinomialPerceptron::Write(std::ostream &ostrm, const string &metadata)\<close>:
  what \<^verbatim>\<open>pb.SerializeToOstream(&ostrm) && ostrm.good()\<close> makes of the message, \<open>None\<close> for
  \<open>false\<close>.
\<close>

definition Dense_Write ::
  "(real list list perceptron_pb \<Rightarrow> 'ostream option) \<Rightarrow> real list list perceptron \<Rightarrow> string
     \<Rightarrow> 'ostream option"
where
  "Dense_Write SerializeToOstream m md = SerializeToOstream (Dense_Write_pb m md)"

subsection \<open>Sparse outer, dense inner\<close>

text \<open>
  The body of the loop over the entries of the message's map:
  \<^verbatim>\<open>model->table_[it->first]\<close> creates the row, \<^verbatim>\<open>outer_table_pb[it->first]\<close> is the
  inner message under the same key, and the inner loop copies \<^verbatim>\<open>inner_size\<close> scalars.
\<close>

definition read_sd_entry ::
  "(string \<times> real list) list \<Rightarrow> nat \<Rightarrow> string \<times> real list \<Rightarrow> (string \<times> real list) list
     \<Rightarrow> error + (string \<times> real list) list"
where
  "read_sd_entry outer_table_pb inner it tbl =
     (let inner_table = mutable tbl (fst it) (replicate inner 0);
          inner_table_pb = mutable outer_table_pb (fst it) []
      in and_then (for_each [0..<inner] (read_cell inner_table_pb) inner_table)
           (\<lambda>inner_table'. Inr (AList.update (fst it) inner_table' tbl)))"

text \<open>
  \<^verbatim>\<open>SparseDenseMultinomialPerceptron::Read(std::istream &istrm)\<close>.
\<close>

definition SparseDense_Read ::
  "('istream \<Rightarrow> (string \<times> real list) list perceptron_pb option) \<Rightarrow> 'istream
     \<Rightarrow> error + (string \<times> real list) list perceptron"
where
  "SparseDense_Read ParseFromIstream istrm =
     (case ParseFromIstream istrm of
        None \<Rightarrow> Inl ParseFailure
      | Some pb \<Rightarrow>
          (let inner = pb_inner_size pb;
               model = Sparse_Base (length (pb_table pb)) inner;
               outer_table_pb = pb_table pb
           in and_then
                (for_each outer_table_pb (read_sd_entry outer_table_pb inner) (table model))
                (\<lambda>tbl. Inr (model\<lparr>table := tbl\<rparr>))))"

text \<open>The step \<^verbatim>\<open>inner_table_pb->Add(it->second[j].Get())\<close>.\<close>

definition write_sd_cell :: "real list \<Rightarrow> nat \<Rightarrow> real list \<Rightarrow> error + real list" where
  "write_sd_cell row j inner_table_pb =
     and_then (index_at row j) (\<lambda>w. Inr (inner_table_pb @ [w]))"

text \<open>
  The body of the loop over the entries of \<^verbatim>\<open>table_\<close>:
  \<^verbatim>\<open>(*outer_table_pb)[it->first].mutable_table()\<close> is the repeated field under the key,
  created empty, and the inner loop runs over \<^verbatim>\<open>j < InnerSize()\<close>.
\<close>

definition write_sd_entry ::
  "nat \<Rightarrow> string \<times> real list \<Rightarrow> (string \<times> real list) list \<Rightarrow> error + (string \<times> real list) list"
where
  "write_sd_entry inner it outer_table_pb =
     (let inner_table_pb = mutable outer_table_pb (fst it) []
      in and_then (for_each [0..<inner] (write_sd_cell (snd it)) inner_table_pb)
           (\<lambda>inner_table_pb'. Inr (AList.update (fst it) inner_table_pb' outer_table_pb)))"

text \<open>The message that \<^verbatim>\<open>SparseDenseMultinomialPerceptron::Write\<close> builds.\<close>

definition SparseDense_Write_pb ::
  "(string \<times> real list) list perceptron \<Rightarrow> string
     \<Rightarrow> error + (string \<times> real list) list perceptron_pb"
where
  "SparseDense_Write_pb m md =
     (let pb = empty_pb\<lparr>metadata := md, pb_inner_size := inner_size m\<rparr>
      in and_then (for_each (table m) (write_sd_entry (inner_size m)) (pb_table pb))
           (\<lambda>outer_table_pb. Inr (pb\<lparr>pb_table := outer_table_pb\<rparr>)))"

text \<open>
  \<^verbatim>\<open>SparseDenseMultinomialPerceptron::Write(std::ostream &ostrm, const string &metadata)\<close>.
\<close>

definition SparseDense_Write ::
  "((string \<times> real list) list perceptron_pb \<Rightarrow> 'ostream option)
     \<Rightarrow> (string \<times> real list) list perceptron \<Rightarrow> string \<Rightarrow> error + 'ostream option"
where
  "SparseDense_Write SerializeToOstream m md =
     and_then (SparseDense_Write_pb m md) (\<lambda>pb. Inr (SerializeToOstream pb))"

subsection \<open>Sparse outer, sparse inner\<close>

text \<open>
  The body of the loop over the entries of the message's map: every cell of the inner
  map is stored by \<^verbatim>\<open>inner_table[iit->first].Set(iit->second)\<close>.
\<close>

definition read_ss_entry ::
  "(string \<times> (string \<times> real) list) list \<Rightarrow> string \<times> (string \<times> real) list
     \<Rightarrow> (string \<times> (string \<times> real) list) list \<Rightarrow> (string \<times> (string \<times> real) list) list"
where
  "read_ss_entry outer_table_pb it tbl =
     (let inner_table = mutable tbl (fst it) [];
          inner_table_pb = mutable outer_table_pb (fst it) []
      in AList.update (fst it)
           (fold (\<lambda>iit inner. AList.update (fst iit) (snd iit) inner) inner_table_pb inner_table)
           tbl)"

text \<open>
  \<^verbatim>\<open>SparseMultinomialPerceptron::Read(std::istream &istrm)\<close>.
\<close>

definition Sparse_Read ::
  "('istream \<Rightarrow> (string \<times> (string \<times> real) list) list perceptron_pb option) \<Rightarrow> 'istream
     \<Rightarrow> error + (string \<times> (string \<times> real) list) list perceptron"
where
  "Sparse_Read ParseFromIstream istrm =
     (case ParseFromIstream istrm of
        None \<Rightarrow> Inl ParseFailure
      | Some pb \<Rightarrow>
          (let model = Sparse_Base (length (pb_table pb)) (pb_inner_size pb);
               outer_table_pb = pb_table pb
           in Inr (model\<lparr>table := fold (read_ss_entry outer_table_pb) outer_table_pb (table model)\<rparr>)))"

text \<open>
  The step of the inner loop of \<open>Write\<close>: a cell under the empty label is skipped, any
  other is stored by \<^verbatim>\<open>(*inner_table_pb)[iit->first] = iit->second.Get()\<close>.
\<close>

definition write_ss_cell :: "string \<times> real \<Rightarrow> (string \<times> real) list \<Rightarrow> (string \<times> real) list" where
  "write_ss_cell iit inner_table_pb =
     (if fst iit = [] then inner_table_pb
      else AList.update (fst iit) (snd iit) inner_table_pb)"

text \<open>
  The body of the loop over the entries of \<^verbatim>\<open>table_\<close>; the inner map under the key is
  created empty by \<^verbatim>\<open>(*outer_table_pb)[it->first].mutable_table()\<close>.
\<close>

definition write_ss_entry ::
  "string \<times> (string \<times> real) list \<Rightarrow> (string \<times> (string \<times> real) list) list
     \<Rightarrow> (string \<times> (string \<times> real) list) list"
where
  "write_ss_entry it outer_table_pb =
     (let inner_table_pb = mutable outer_table_pb (fst it) []
      in AList.update (fst it) (fold write_ss_cell (snd it) inner_table_pb) outer_table_pb)"

text \<open>The message that \<^verbatim>\<open>SparseMultinomialPerceptron::Write\<close> builds.\<close>

definition Sparse_Write_pb ::
  "(string \<times> (string \<times> real) list) list perceptron \<Rightarrow> string
     \<Rightarrow> (string \<times> (string \<times> real) list) list perceptron_pb"
where
  "Sparse_Write_pb m md =
     (let pb = empty_pb\<lparr>metadata := md, pb_inner_size := inner_size m\<rparr>
      in pb\<lparr>pb_table := fold write_ss_entry (table m) (pb_table pb)\<rparr>)"

text \<open>
  \<^verbatim>\<open>SparseMultinomialPerceptron::Write(std::ostream &ostrm, const string &metadata)\<close>.
\<close>

definition Sparse_Write ::
  "((string \<times> (string \<times> real) list) list perceptron_pb \<Rightarrow> 'ostream option)
     \<Rightarrow> (string \<times> (string \<times> real) list) list perceptron \<Rightarrow> string \<Rightarrow> 'ostream option"
where
  "Sparse_Write SerializeToOstream m md = SerializeToOstream (Sparse_Write_pb m md)"

text \<open>
  What a sparse table keeps when the cells keyed by the reserved empty string are left out.
\<close>

definition drop_reserved :: "(string \<times> (string \<times> 'c) list) list \<Rightarrow> (string \<times> (string \<times> 'c) list) list" where
  "drop_reserved tbl = map (\<lambda>it. (fst it, filter (\<lambda>iit. fst iit \<noteq> []) (snd it))) tbl"

text \<open>
  A cell of a fully sparse table, by feature key and label key; \<open>None\<close> when it is absent.
\<close>

definition cell :: "(string \<times> (string \<times> 'c) list) list \<Rightarrow> string \<Rightarrow> string \<Rightarrow> 'c option" where
  "cell tbl k l = (case map_of tbl k of None \<Rightarrow> None | Some inner \<Rightarrow> map_of inner l)"

text \<open>No inner table has a cell keyed by the reserved empty string.\<close>

definition no_reserved :: "(string \<times> (string \<times> 'c) list) list \<Rightarrow> bool" where
  "no_reserved tbl \<longleftrightarrow> (\<forall>it \<in> set tbl. [] \<notin> fst ` set (snd it))"

section \<open>Averaging in one cell\<close>

text \<open>A cell's history: the updates \<open>(time, delta)\<close> it received, in order.\<close>

fun apply_updates :: "AveragedWeight \<Rightarrow> (nat \<times> real) list \<Rightarrow> AveragedWeight" where
  "apply_updates c [] = c"
| "apply_updates c (u # us) = apply_updates (Update c (snd u) (fst u)) us"

text \<open>
  The direct, non-lazy recomputation, in the spec's words: the true weight is a step
  function of time, each update taking effect from its own time on, and the average is
  its time-weighted mean over \<open>[0, T)\<close>.
\<close>

definition step_weight :: "(nat \<times> real) list \<Rightarrow> nat \<Rightarrow> real" where
  "step_weight us s = sum_list (map snd (filter (\<lambda>u. fst u \<le> s) us))"

definition direct_average :: "(nat \<times> real) list \<Rightarrow> nat \<Rightarrow> real" where
  "direct_average us T = (if T = 0 then 0 else sum_list (map (step_weight us) [0..<T]) / real T)"

section \<open>Training a dense averaged model\<close>

text \<open>
  Modelled from the spec: the averaged classifier (\<open>multinomial_perceptron.h\<close>) is not among
  the sources.  A new averaged model has all its cells at zero and its clock at 0.
\<close>

definition Dense_Averaged :: "nat \<Rightarrow> nat \<Rightarrow> AveragedWeight list list averaged_perceptron" where
  "Dense_Averaged n m =
     \<lparr>outer_size = n, inner_size = m, table = replicate n (replicate m zero_cell), time = 0\<rparr>"

text \<open>
  Modelled from the spec: the score of a label is the sum, over the listed features, of
  the true weight of that feature's cell for the label; this is the step for one cell.
\<close>

definition score_cell :: "AveragedWeight list \<Rightarrow> nat \<Rightarrow> real list \<Rightarrow> error + real list" where
  "score_cell row j scores =
     and_then (index_at row j) (\<lambda>c.
     and_then (index_at scores j) (\<lambda>s. assign_at scores j (s + Get c)))"

text \<open>
  Modelled from the spec: one listed feature adds the true weights of its row to the
  scores, label by label; a feature outside of the dense table is undefined.
\<close>

definition score_feature ::
  "AveragedWeight list list \<Rightarrow> nat \<Rightarrow> nat \<Rightarrow> real list \<Rightarrow> error + real list"
where
  "score_feature tbl inner f scores =
     and_then (index_at tbl f) (\<lambda>row. for_each [0..<inner] (score_cell row) scores)"

text \<open>
  Modelled from the spec: scoring starts from zero for every label and takes the listed
  features in order.
\<close>

definition Score :: "AveragedWeight list list averaged_perceptron \<Rightarrow> nat list \<Rightarrow> error + real list" where
  "Score m features =
     for_each features (score_feature (table m) (inner_size m)) (replicate (inner_size m) 0)"

text \<open>
  Modelled from the spec: the prediction is the label of maximal score, the lowest index
  winning a tie (the rule the spec names, and the one its dense scenario needs).  With no
  label at all there is nothing to return.
\<close>

definition ArgMax :: "real list \<Rightarrow> error + nat" where
  "ArgMax scores =
     (if scores = [] then Inl OutOfRange
      else Inr (fold (\<lambda>j best. if scores ! best < scores ! j then j else best)
                  [0..<length scores] 0))"

text \<open>Modelled from the spec: \<open>predict\<close> scores the features and returns the argmax label.\<close>

definition Predict :: "AveragedWeight list list averaged_perceptron \<Rightarrow> nat list \<Rightarrow> error + nat" where
  "Predict m features = and_then (Score m features) ArgMax"

text \<open>
  Modelled from the spec: the perceptron update in the row of one listed feature, the gold
  label's cell by +1 and the predicted label's cell by -1, each through \<open>Update\<close> at the
  current time.
\<close>

definition update_row ::
  "nat \<Rightarrow> nat \<Rightarrow> nat \<Rightarrow> AveragedWeight list \<Rightarrow> error + AveragedWeight list"
where
  "update_row now gold yhat row =
     and_then (index_at row gold) (\<lambda>cg.
     and_then (assign_at row gold (Update cg 1 now)) (\<lambda>row1.
     and_then (index_at row1 yhat) (\<lambda>cp.
       assign_at row1 yhat (Update cp (- 1) now))))"

text \<open>
  Modelled from the spec: the update for one listed feature of a dense outer table; a
  feature outside of the table is undefined.
\<close>

definition update_feature ::
  "nat \<Rightarrow> nat \<Rightarrow> nat \<Rightarrow> nat \<Rightarrow> AveragedWeight list list \<Rightarrow> error + AveragedWeight list list"
where
  "update_feature now gold yhat f tbl =
     and_then (index_at tbl f) (\<lambda>row.
     and_then (update_row now gold yhat row) (\<lambda>row2.
       Inr (tbl[f := row2])))"

text \<open>
  Modelled from the spec: \<open>train_one\<close> predicts; on a mistake it updates every listed
  feature; it then advances the clock by one, mistake or not, and returns the prediction
  made before the update.
\<close>

definition train_one ::
  "AveragedWeight list list averaged_perceptron \<Rightarrow> nat list \<Rightarrow> nat
     \<Rightarrow> error + (nat \<times> AveragedWeight list list averaged_perceptron)"
where
  "train_one m features gold =
     and_then (Predict m features) (\<lambda>yhat.
     and_then (if yhat \<noteq> gold
               then for_each features (update_feature (time m) gold yhat) (table m)
               else Inr (table m)) (\<lambda>tbl.
       Inr (yhat, m\<lparr>table := tbl, time := time m + 1\<rparr>)))"

section \<open>Training a sparse/dense averaged model\<close>

text \<open>
  Modelled from the spec: the row of a feature in a sparse outer table with dense inner
  tables; the row of an absent feature reads as zero cells, \<open>inner\<close> of them.
\<close>

definition row_of :: "(string \<times> AveragedWeight list) list \<Rightarrow> nat \<Rightarrow> string \<Rightarrow> AveragedWeight list" where
  "row_of tbl inner f = mutable tbl f (replicate inner zero_cell)"

text \<open>
  Modelled from the spec: a listed feature that the outer table has adds the true weights
  of its row to the scores; one that it does not have adds nothing and is not created.
\<close>

definition score_feature_sd ::
  "(string \<times> AveragedWeight list) list \<Rightarrow> nat \<Rightarrow> string \<Rightarrow> real list \<Rightarrow> error + real list"
where
  "score_feature_sd tbl inner f scores =
     (case map_of tbl f of
        None \<Rightarrow> Inr scores
      | Some row \<Rightarrow> for_each [0..<inner] (score_cell row) scores)"

text \<open>
  Modelled from the spec: scoring starts from zero for every label and takes the listed
  features in order.
\<close>

definition Score_sd ::
  "(string \<times> AveragedWeight list) list averaged_perceptron \<Rightarrow> string list \<Rightarrow> error + real list"
where
  "Score_sd m features =
     for_each features (score_feature_sd (table m) (inner_size m)) (replicate (inner_size m) 0)"

text \<open>Modelled from the spec: \<open>predict\<close> scores the features and returns the argmax label.\<close>

definition Predict_sd ::
  "(string \<times> AveragedWeight list) list averaged_perceptron \<Rightarrow> string list \<Rightarrow> error + nat"
where
  "Predict_sd m features = and_then (Score_sd m features) ArgMax"

text \<open>
  Modelled from the spec: the update for one listed feature of a sparse outer table; the
  mutable access creates the feature's row when it is absent.
\<close>

definition update_feature_sd ::
  "nat \<Rightarrow> nat \<Rightarrow> nat \<Rightarrow> nat \<Rightarrow> string \<Rightarrow> (string \<times> AveragedWeight list) list
     \<Rightarrow> error + (string \<times> AveragedWeight list) list"
where
  "update_feature_sd now inner gold yhat f tbl =
     and_then (update_row now gold yhat (row_of tbl inner f)) (\<lambda>row2.
       Inr (AList.update f row2 tbl))"

text \<open>Modelled from the spec: \<open>train_one\<close> on a sparse outer table with dense inner tables.\<close>

definition train_one_sd ::
  "(string \<times> AveragedWeight list) list averaged_perceptron \<Rightarrow> string list \<Rightarrow> nat
     \<Rightarrow> error + (nat \<times> (string \<times> AveragedWeight list) list averaged_perceptron)"
where
  "train_one_sd m features gold =
     and_then (Predict_sd m features) (\<lambda>yhat.
     and_then (if yhat \<noteq> gold
               then for_each features
                      (update_feature_sd (time m) (inner_size m) gold yhat) (table m)
               else Inr (table m)) (\<lambda>tbl.
       Inr (yhat, m\<lparr>table := tbl, time := time m + 1\<rparr>)))"

section \<open>Training a fully sparse averaged model\<close>

text \<open>
  Modelled from the spec: a cell of a fully sparse table as it reads, an absent cell as
  the zero cell.
\<close>

definition cell_or_zero ::
  "(string \<times> (string \<times> AveragedWeight) list) list \<Rightarrow> string \<Rightarrow> string \<Rightarrow> AveragedWeight"
where
  "cell_or_zero tbl f l = (case cell tbl f l of None \<Rightarrow> zero_cell | Some c \<Rightarrow> c)"

text \<open>
  Modelled from the spec: the update for one listed feature of a fully sparse table; the
  mutable accesses create the feature's inner table and the two cells when they are
  absent.
\<close>

definition update_feature_ss ::
  "nat \<Rightarrow> string \<Rightarrow> string \<Rightarrow> string \<Rightarrow> (string \<times> (string \<times> AveragedWeight) list) list
     \<Rightarrow> (string \<times> (string \<times> AveragedWeight) list) list"
where
  "update_feature_ss now gold yhat f tbl =
     (let inner = mutable tbl f [];
          cg = mutable inner gold zero_cell;
          inner1 = AList.update gold (Update cg 1 now) inner;
          cp = mutable inner1 yhat zero_cell;
          inner2 = AList.update yhat (Update cp (- 1) now) inner1
      in AList.update f inner2 tbl)"

text \<open>
  Modelled from the spec: \<open>train_one\<close> on a fully sparse table.  The spec names neither the
  candidate labels nor the order that breaks a tie among string labels, so the prediction
  is a parameter: \<open>predict\<close> is given the model before the update.
\<close>

definition train_one_ss ::
  "((string \<times> (string \<times> AveragedWeight) list) list averaged_perceptron \<Rightarrow> string list \<Rightarrow> string)
     \<Rightarrow> (string \<times> (string \<times> AveragedWeight) list) list averaged_perceptron \<Rightarrow> string list \<Rightarrow> string
     \<Rightarrow> string \<times> (string \<times> (string \<times> AveragedWeight) list) list averaged_perceptron"
where
  "train_one_ss predict m features gold =
     (let yhat = predict m features;
          tbl = (if yhat \<noteq> gold
                 then fold (update_feature_ss (time m) gold yhat) features (table m)
                 else table m)
      in (yhat, m\<lparr>table := tbl, time := time m + 1\<rparr>))"

text \<open>
  For stating what the training loop leaves behind: the shape of a dense table, and the
  cell that \<open>k\<close> perceptron updates at one time make of a cell under label \<open>j\<close>, each
  update going through \<open>Update\<close>.
\<close>

definition shape :: "'c list list \<Rightarrow> nat \<Rightarrow> nat \<Rightarrow> bool" where
  "shape tbl n m \<longleftrightarrow> length tbl = n \<and> (\<forall>row \<in> set tbl. length row = m)"

definition final_cell :: "nat \<Rightarrow> 'l \<Rightarrow> 'l \<Rightarrow> nat \<Rightarrow> 'l \<Rightarrow> AveragedWeight \<Rightarrow> AveragedWeight" where
  "final_cell now gold yhat k j c =
     (if j = gold then ((\<lambda>c. Update c 1 now) ^^ k) c
      else if j = yhat then ((\<lambda>c. Update c (- 1) now) ^^ k) c
      else c)"

text \<open>
  What the training loop keeps of a sparse table: no key twice, and every dense row of
  the inner size.
\<close>

definition rows_ok :: "(string \<times> AveragedWeight list) list \<Rightarrow> nat \<Rightarrow> bool" where
  "rows_ok tbl m \<longleftrightarrow> distinct (map fst tbl) \<and> (\<forall>row \<in> set (map snd tbl). length row = m)"

definition inners_ok :: "(string \<times> (string \<times> AveragedWeight) list) list \<Rightarrow> bool" where
  "inners_ok tbl \<longleftrightarrow>
     distinct (map fst tbl) \<and> (\<forall>inner \<in> set (map snd tbl). distinct (map fst inner))"

section \<open>Example models\<close>

definition avg_example :: "(string \<times> (string \<times> AveragedWeight) list) list averaged_perceptron" where
  "avg_example =
     \<lparr>outer_size = 1, inner_size = 2,
      table = [(''bias'', [([], \<lparr>true_weight = 3, averaged_weight = 1, last_update_time = 1\<rparr>),
                          (''NOUN'', \<lparr>true_weight = 1, averaged_weight = 2, last_update_time = 2\<rparr>)])],
      time = 4\<rparr>"

definition dense_avg_example :: "AveragedWeight list list averaged_perceptron" where
  "dense_avg_example =
     \<lparr>outer_size = 2, inner_size = 2,
      table = [[\<lparr>true_weight = 1, averaged_weight = 2, last_update_time = 2\<rparr>, zero_cell],
               [\<lparr>true_weight = - 1, averaged_weight = 0, last_update_time = 0\<rparr>,
                \<lparr>true_weight = 2, averaged_weight = 0, last_update_time = 3\<rparr>]],
      time = 4\<rparr>"

definition sparse_dense_avg_example :: "(string \<times> AveragedWeight list) list averaged_perceptron" where
  "sparse_dense_avg_example =
     \<lparr>outer_size = 8, inner_size = 2,
      table = [(''bias'', [\<lparr>true_weight = 1, averaged_weight = 2, last_update_time = 2\<rparr>, zero_cell]),
               (''tok=foo'', [\<lparr>true_weight = - 1, averaged_weight = 0, last_update_time = 0\<rparr>,
                              \<lparr>true_weight = 2, averaged_weight = 0, last_update_time = 3\<rparr>])],
      time = 4\<rparr>"

definition sparse_example :: "(string \<times> (string \<times> real) list) list perceptron" where
  "sparse_example =
     \<lparr>outer_size = 1, inner_size = 2, table = [(''bias'', [([], 5), (''NOUN'', 2)])]\<rparr>"

definition sparse_dense_example :: "(string \<times> real list) list perceptron" where
  "sparse_dense_example =
     \<lparr>outer_size = 8, inner_size = 2, table = [(''bias'', [1, 0]), (''tok=foo'', [- 1, 1 / 2])]\<rparr>"

definition dense_example :: "real list list perceptron" where
  "dense_example = \<lparr>outer_size = 2, inner_size = 2, table = [[1, 0], [- 1, 1 / 2]]\<rparr>"

definition trained_example :: "AveragedWeight list list averaged_perceptron" where
  "trained_example =
     \<lparr>outer_size = 3, inner_size = 2,
      table = [[\<lparr>true_weight = - 1, averaged_weight = 0, last_update_time = 0\<rparr>,
                \<lparr>true_weight = 1, averaged_weight = 0, last_update_time = 0\<rparr>],
               [\<lparr>true_weight = - 1, averaged_weight = 0, last_update_time = 0\<rparr>,
                \<lparr>true_weight = 1, averaged_weight = 0, last_update_time = 0\<rparr>],
               [zero_cell, zero_cell]],
      time = 1\<rparr>"

text \<open>Models whose cells are stale at the clock value 4, for a training step on a mistake.\<close>

definition stale_example :: "AveragedWeight list list averaged_perceptron" where
  "stale_example = trained_example\<lparr>time := 4\<rparr>"

definition stale_sd_example :: "(string \<times> AveragedWeight list) list averaged_perceptron" where
  "stale_sd_example =
     \<lparr>outer_size = 8, inner_size = 2,
      table = [(''bias'', [\<lparr>true_weight = - 1, averaged_weight = 0, last_update_time = 0\<rparr>,
                          \<lparr>true_weight = 1, averaged_weight = 0, last_update_time = 0\<rparr>])],
      time = 4\<rparr>"

definition stale_ss_example ::
  "(string \<times> (string \<times> AveragedWeight) list) list averaged_perceptron"
where
  "stale_ss_example =
     \<lparr>outer_size = 8, inner_size = 2,
      table = [(''bias'', [(''VERB'', \<lparr>true_weight = 1, averaged_weight = 0, last_update_time = 0\<rparr>)])],
      time = 4\<rparr>"

text \<open>
  A prediction rule for string labels, for the example: the label whose cell under the
  first listed feature has the greatest true weight, \<open>VERB\<close> before \<open>NOUN\<close> on a tie.
\<close>

definition predict_example ::
  "(string \<times> (string \<times> AveragedWeight) list) list averaged_perceptron \<Rightarrow> string list \<Rightarrow> string"
where
  "predict_example m features =
     (case features of
        [] \<Rightarrow> ''VERB''
      | f # _ \<Rightarrow>
          if Get (cell_or_zero (table m) f ''VERB'') < Get (cell_or_zero (table m) f ''NOUN'')
          then ''NOUN'' else ''VERB'')"






section \<open>Properties of the loops\<close>

lemma and_then_Inr [simp]: "and_then (Inr x) f = f x"
  by (simp add: and_then_def)

lemma and_then_Inl [simp]: "and_then (Inl e) f = Inl e"
  by (simp add: and_then_def)

lemma for_each_append:
  "for_each (xs @ ys) body s = and_then (for_each xs body s) (for_each ys body)"
proof (induction xs arbitrary: s)
  case Nil
  show ?case by simp
next
  case (Cons x xs)
  show ?case
  proof (cases "body x s")
    case (Inl e)
    then show ?thesis by simp
  next
    case (Inr s')
    then show ?thesis by (simp add: Cons.IH)
  qed
qed

subsection \<open>Freezing, loop by loop\<close>

lemma mutable_absent: "k \<notin> fst ` set tbl \<Longrightarrow> mutable tbl k dflt = dflt"
proof -
  assume "k \<notin> fst ` set tbl"
  then have "map_of tbl k = None" by (simp add: map_of_eq_None_iff)
  then show ?thesis by (simp add: mutable_def)
qed

lemma update_absent: "k \<notin> fst ` set tbl \<Longrightarrow> AList.update k v tbl = tbl @ [(k, v)]"
  by (induction tbl) auto

lemma freeze_cell_loop:
  assumes "n \<le> length avg_ref" "length ref = length avg_ref"
  shows "for_each [0..<n] (freeze_cell now) (ref, avg_ref) =
           Inr (map (\<lambda>c. fst (GetAverage c now)) (take n avg_ref) @ drop n ref,
                map (\<lambda>c. snd (GetAverage c now)) (take n avg_ref) @ drop n avg_ref)"
  using assms
proof (induction n)
  case 0
  show ?case by simp
next
  case (Suc n)
  then have n: "n < length avg_ref" "n < length ref" by simp_all
  have step: "freeze_cell now n
         (map (\<lambda>c. fst (GetAverage c now)) (take n avg_ref) @ drop n ref,
          map (\<lambda>c. snd (GetAverage c now)) (take n avg_ref) @ drop n avg_ref) =
        Inr (map (\<lambda>c. fst (GetAverage c now)) (take (Suc n) avg_ref) @ drop (Suc n) ref,
             map (\<lambda>c. snd (GetAverage c now)) (take (Suc n) avg_ref) @ drop (Suc n) avg_ref)"
    using n
    by (simp add: freeze_cell_def index_at_def assign_at_def nth_append
          take_Suc_conv_app_nth list_update_append upd_conv_take_nth_drop
          split: prod.split)
  show ?case
    using Suc n by (simp add: for_each_append step)
qed

lemma freeze_cell_row:
  assumes "length ref = length avg_ref"
  shows "for_each [0..<length avg_ref] (freeze_cell now) (ref, avg_ref) =
           Inr (map (\<lambda>c. fst (GetAverage c now)) avg_ref,
                map (\<lambda>c. snd (GetAverage c now)) avg_ref)"
  using freeze_cell_loop [of "length avg_ref" avg_ref ref now] assms by simp

lemma freeze_row_loop:
  assumes "n \<le> length avg_tbl" "length tbl = length avg_tbl"
    and "\<forall>row \<in> set avg_tbl. length row = m" "\<forall>row \<in> set tbl. length row = m"
  shows "for_each [0..<n] (freeze_row now m) (tbl, avg_tbl) =
           Inr (map (map (\<lambda>c. fst (GetAverage c now))) (take n avg_tbl) @ drop n tbl,
                map (map (\<lambda>c. snd (GetAverage c now))) (take n avg_tbl) @ drop n avg_tbl)"
  using assms(1)
proof (induction n)
  case 0
  show ?case by simp
next
  case (Suc n)
  then have n: "n < length avg_tbl" "n < length tbl" using assms(2) by simp_all
  have len: "length (tbl ! n) = length (avg_tbl ! n)" "length (avg_tbl ! n) = m"
    using n assms(3,4) by simp_all
  have inner: "for_each [0..<m] (freeze_cell now) (tbl ! n, avg_tbl ! n) =
           Inr (map (\<lambda>c. fst (GetAverage c now)) (avg_tbl ! n),
                map (\<lambda>c. snd (GetAverage c now)) (avg_tbl ! n))"
    using freeze_cell_row [OF len(1), of now] len(2) by simp
  have step: "freeze_row now m n
         (map (map (\<lambda>c. fst (GetAverage c now))) (take n avg_tbl) @ drop n tbl,
          map (map (\<lambda>c. snd (GetAverage c now))) (take n avg_tbl) @ drop n avg_tbl) =
        Inr (map (map (\<lambda>c. fst (GetAverage c now))) (take (Suc n) avg_tbl) @ drop (Suc n) tbl,
             map (map (\<lambda>c. snd (GetAverage c now))) (take (Suc n) avg_tbl) @ drop (Suc n) avg_tbl)"
    using n
    by (simp add: freeze_row_def index_at_def nth_append inner
          take_Suc_conv_app_nth list_update_append upd_conv_take_nth_drop)
  show ?case
    using Suc n by (simp add: for_each_append step)
qed

lemma Dense_freeze:
  assumes "dense_wf avg"
  shows "Dense_MultinomialPerceptronTpl avg =
           Inr (\<lparr>outer_size = outer_size avg, inner_size = inner_size avg,
                  table = map (map (\<lambda>c. fst (GetAverage c (time avg)))) (table avg)\<rparr>,
                avg\<lparr>table := map (map (\<lambda>c. snd (GetAverage c (time avg)))) (table avg)\<rparr>)"
proof -
  have "for_each [0..<outer_size avg] (freeze_row (time avg) (inner_size avg))
          (replicate (outer_size avg) (replicate (inner_size avg) 0), table avg) =
        Inr (map (map (\<lambda>c. fst (GetAverage c (time avg)))) (table avg),
             map (map (\<lambda>c. snd (GetAverage c (time avg)))) (table avg))"
    using freeze_row_loop [of "outer_size avg" "table avg"
        "replicate (outer_size avg) (replicate (inner_size avg) 0)" "inner_size avg" "time avg"]
      assms
    by (simp add: dense_wf_def)
  then show ?thesis
    by (simp add: Dense_MultinomialPerceptronTpl_def Dense_Base_def)
qed

lemma freeze_sd_entries_eq:
  assumes "distinct (map fst entries)" "fst ` set entries \<inter> fst ` set tbl = {}"
    and "\<forall>row \<in> set (map snd entries). length row = m"
  shows "freeze_sd_entries now m entries tbl =
           Inr (tbl @ map (\<lambda>it. (fst it, map (\<lambda>c. fst (GetAverage c now)) (snd it))) entries,
                map (\<lambda>it. (fst it, map (\<lambda>c. snd (GetAverage c now)) (snd it))) entries)"
  using assms
proof (induction entries arbitrary: tbl)
  case Nil
  show ?case by simp
next
  case (Cons it rest)
  have absent: "fst it \<notin> fst ` set tbl" using Cons.prems(2) by auto
  have len: "length (replicate m (0::real)) = length (snd it)" "length (snd it) = m"
    using Cons.prems(3) by simp_all
  have inner: "for_each [0..<m] (freeze_cell now) (replicate m 0, snd it) =
           Inr (map (\<lambda>c. fst (GetAverage c now)) (snd it),
                map (\<lambda>c. snd (GetAverage c now)) (snd it))"
    using freeze_cell_row [OF len(1), of now] len(2) by simp
  have disj: "fst ` set rest \<inter>
      fst ` set (tbl @ [(fst it, map (\<lambda>c. fst (GetAverage c now)) (snd it))]) = {}"
    using Cons.prems(1,2) by auto
  have rest: "freeze_sd_entries now m rest
        (tbl @ [(fst it, map (\<lambda>c. fst (GetAverage c now)) (snd it))]) =
      Inr ((tbl @ [(fst it, map (\<lambda>c. fst (GetAverage c now)) (snd it))]) @
             map (\<lambda>it. (fst it, map (\<lambda>c. fst (GetAverage c now)) (snd it))) rest,
           map (\<lambda>it. (fst it, map (\<lambda>c. snd (GetAverage c now)) (snd it))) rest)"
    using Cons.IH [OF _ disj] Cons.prems(1,3) by simp
  show ?case
    by (simp add: mutable_absent [OF absent] update_absent [OF absent] inner rest)
qed

lemma SparseDense_freeze:
  assumes "sparse_dense_wf avg"
  shows "SparseDense_MultinomialPerceptronTpl avg =
           Inr (\<lparr>outer_size = outer_size avg, inner_size = inner_size avg,
                  table = map (\<lambda>it. (fst it, map (\<lambda>c. fst (GetAverage c (time avg))) (snd it)))
                            (table avg)\<rparr>,
                avg\<lparr>table := map (\<lambda>it. (fst it, map (\<lambda>c. snd (GetAverage c (time avg))) (snd it)))
                                (table avg)\<rparr>)"
  using assms freeze_sd_entries_eq [of "table avg" "[]" "inner_size avg" "time avg"]
  by (simp add: SparseDense_MultinomialPerceptronTpl_def Sparse_Base_def sparse_dense_wf_def)

lemma freeze_ss_cells_eq:
  assumes "distinct (map fst cells)" "fst ` set cells \<inter> fst ` set ref = {}"
  shows "freeze_ss_cells now cells ref =
           (ref @ map (\<lambda>iit. (fst iit, fst (GetAverage (snd iit) now)))
                    (filter (\<lambda>iit. fst iit \<noteq> []) cells),
            map (\<lambda>iit. if fst iit = [] then iit else (fst iit, snd (GetAverage (snd iit) now)))
              cells)"
  using assms
proof (induction cells arbitrary: ref)
  case Nil
  show ?case by simp
next
  case (Cons iit rest)
  have absent: "fst iit \<notin> fst ` set ref" using Cons.prems(2) by auto
  show ?case
  proof (cases "fst iit = []")
    case True
    have "fst ` set rest \<inter> fst ` set ref = {}" using Cons.prems(2) by auto
    then show ?thesis using Cons.IH [of ref] Cons.prems(1) True by simp
  next
    case False
    have disj: "fst ` set rest \<inter>
        fst ` set (ref @ [(fst iit, fst (GetAverage (snd iit) now))]) = {}"
      using Cons.prems(1,2) by auto
    obtain v c' where ga: "GetAverage (snd iit) now = (v, c')"
      by (cases "GetAverage (snd iit) now")
    show ?thesis
      using Cons.IH [OF _ disj] Cons.prems(1) False
      by (simp add: update_absent [OF absent] ga)
  qed
qed

lemma freeze_ss_entries_eq:
  assumes "distinct (map fst entries)" "fst ` set entries \<inter> fst ` set tbl = {}"
    and "\<forall>inner \<in> set (map snd entries). distinct (map fst inner)"
  shows "freeze_ss_entries now entries tbl =
           (tbl @ map (\<lambda>it. (fst it, map (\<lambda>iit. (fst iit, fst (GetAverage (snd iit) now)))
                                      (filter (\<lambda>iit. fst iit \<noteq> []) (snd it)))) entries,
            map (\<lambda>it. (fst it,
                   map (\<lambda>iit. if fst iit = [] then iit
                               else (fst iit, snd (GetAverage (snd iit) now))) (snd it))) entries)"
  using assms
proof (induction entries arbitrary: tbl)
  case Nil
  show ?case by simp
next
  case (Cons it rest)
  have absent: "fst it \<notin> fst ` set tbl" using Cons.prems(2) by auto
  have inner: "freeze_ss_cells now (snd it) [] =
      (map (\<lambda>iit. (fst iit, fst (GetAverage (snd iit) now)))
                    (filter (\<lambda>iit. fst iit \<noteq> []) (snd it)),
       map (\<lambda>iit. if fst iit = [] then iit else (fst iit, snd (GetAverage (snd iit) now)))
              (snd it))"
    using freeze_ss_cells_eq [of "snd it" "[]" now] Cons.prems(3) by simp
  have disj: "fst ` set rest \<inter>
      fst ` set (tbl @ [(fst it, map (\<lambda>iit. (fst iit, fst (GetAverage (snd iit) now)))
                    (filter (\<lambda>iit. fst iit \<noteq> []) (snd it)))]) = {}"
    using Cons.prems(1,2) by auto
  show ?case
    using Cons.IH [OF _ disj] Cons.prems(1,3)
    by (simp add: mutable_absent [OF absent] update_absent [OF absent] inner)
qed

lemma Sparse_freeze:
  assumes "sparse_wf avg"
  shows "Sparse_MultinomialPerceptronTpl avg =
           (\<lparr>outer_size = outer_size avg, inner_size = inner_size avg,
              table = map (\<lambda>it. (fst it, map (\<lambda>iit. (fst iit, fst (GetAverage (snd iit) (time avg))))
                                      (filter (\<lambda>iit. fst iit \<noteq> []) (snd it)))) (table avg)\<rparr>,
            avg\<lparr>table := map (\<lambda>it. (fst it,
                   map (\<lambda>iit. if fst iit = [] then iit
                               else (fst iit, snd (GetAverage (snd iit) (time avg)))) (snd it)))
                   (table avg)\<rparr>)"
  using assms freeze_ss_entries_eq [of "table avg" "[]" "time avg"]
  by (simp add: Sparse_MultinomialPerceptronTpl_def Sparse_Base_def sparse_wf_def)

subsection \<open>Writing and reading back, loop by loop\<close>

lemma write_row_fold: "fold (\<lambda>w inner_table_pb. inner_table_pb @ [w]) row acc = acc @ row"
  by (induction row arbitrary: acc) simp_all

lemma write_rows_fold: "fold write_row tbl acc = acc @ tbl"
  by (induction tbl arbitrary: acc) (simp_all add: write_row_def write_row_fold)

lemma read_cell_loop:
  assumes "n \<le> length inner_table_pb" "length inner_table = length inner_table_pb"
  shows "for_each [0..<n] (read_cell inner_table_pb) inner_table =
           Inr (take n inner_table_pb @ drop n inner_table)"
  using assms(1)
proof (induction n)
  case 0
  show ?case by simp
next
  case (Suc n)
  then have n: "n < length inner_table_pb" "n < length inner_table" using assms(2) by simp_all
  have step: "read_cell inner_table_pb n (take n inner_table_pb @ drop n inner_table) =
        Inr (take (Suc n) inner_table_pb @ drop (Suc n) inner_table)"
    using n
    by (simp add: read_cell_def index_at_def assign_at_def nth_append
          take_Suc_conv_app_nth list_update_append upd_conv_take_nth_drop)
  show ?case
    using Suc n by (simp add: for_each_append step)
qed

lemma read_cell_row:
  assumes "length inner_table = length inner_table_pb"
  shows "for_each [0..<length inner_table_pb] (read_cell inner_table_pb) inner_table =
           Inr inner_table_pb"
  using read_cell_loop [of "length inner_table_pb" inner_table_pb inner_table] assms by simp

lemma read_row_loop:
  assumes "n \<le> length (pb_table pb)" "length tbl = length (pb_table pb)"
    and "\<forall>row \<in> set (pb_table pb). length row = m" "\<forall>row \<in> set tbl. length row = m"
  shows "for_each [0..<n] (read_row pb m) tbl = Inr (take n (pb_table pb) @ drop n tbl)"
  using assms(1)
proof (induction n)
  case 0
  show ?case by simp
next
  case (Suc n)
  then have n: "n < length (pb_table pb)" "n < length tbl" using assms(2) by simp_all
  have len: "length (tbl ! n) = length (pb_table pb ! n)" "length (pb_table pb ! n) = m"
    using n assms(3,4) by simp_all
  have inner: "for_each [0..<m] (read_cell (pb_table pb ! n)) (tbl ! n) = Inr (pb_table pb ! n)"
    using read_cell_row [OF len(1)] len(2) by simp
  have step: "read_row pb m n (take n (pb_table pb) @ drop n tbl) =
        Inr (take (Suc n) (pb_table pb) @ drop (Suc n) tbl)"
    using n
    by (simp add: read_row_def index_at_def nth_append inner
          take_Suc_conv_app_nth list_update_append upd_conv_take_nth_drop)
  show ?case
    using Suc n by (simp add: for_each_append step)
qed

lemma Dense_roundtrip:
  assumes wf: "dense_wf m"
    and written: "Dense_Write SerializeToOstream m md = Some bytes"
    and codec: "ParseFromIstream bytes = Some (Dense_Write_pb m md)"
  shows "Dense_Read ParseFromIstream bytes = Inr m"
proof -
  have tbl: "pb_table (Dense_Write_pb m md) = table m"
    by (simp add: Dense_Write_pb_def write_rows_fold)
  have inner: "pb_inner_size (Dense_Write_pb m md) = inner_size m"
    by (simp add: Dense_Write_pb_def)
  have "for_each [0..<length (table m)] (read_row (Dense_Write_pb m md) (inner_size m))
          (replicate (length (table m)) (replicate (inner_size m) 0)) = Inr (table m)"
    using read_row_loop [of "length (table m)" "Dense_Write_pb m md"
        "replicate (length (table m)) (replicate (inner_size m) 0)" "inner_size m"] wf
    by (simp add: dense_wf_def tbl)
  then show ?thesis
    using wf by (simp add: Dense_Read_def codec tbl inner Dense_Base_def dense_wf_def)
qed

lemma mutable_present:
  assumes "distinct (map fst tbl)" "it \<in> set tbl"
  shows "mutable tbl (fst it) dflt = snd it"
proof -
  have "map_of tbl (fst it) = Some (snd it)"
    using assms by (simp add: map_of_eq_Some_iff)
  then show ?thesis by (simp add: mutable_def)
qed

lemma write_sd_cell_loop:
  assumes "n \<le> length row"
  shows "for_each [0..<n] (write_sd_cell row) acc = Inr (acc @ take n row)"
  using assms
proof (induction n)
  case 0
  show ?case by simp
next
  case (Suc n)
  then have n: "n < length row" by simp
  have step: "write_sd_cell row n (acc @ take n row) = Inr (acc @ take (Suc n) row)"
    using n by (simp add: write_sd_cell_def index_at_def take_Suc_conv_app_nth)
  show ?case
    using Suc n by (simp add: for_each_append step)
qed

lemma write_sd_entries_eq:
  assumes "distinct (map fst entries)" "fst ` set entries \<inter> fst ` set outer = {}"
    and "\<forall>row \<in> set (map snd entries). length row = m"
  shows "for_each entries (write_sd_entry m) outer = Inr (outer @ entries)"
  using assms
proof (induction entries arbitrary: outer)
  case Nil
  show ?case by simp
next
  case (Cons it rest)
  have absent: "fst it \<notin> fst ` set outer" using Cons.prems(2) by auto
  have len: "length (snd it) = m" using Cons.prems(3) by simp
  have inner: "for_each [0..<m] (write_sd_cell (snd it)) [] = Inr (snd it)"
    using write_sd_cell_loop [of m "snd it" "[]"] len by simp
  have disj: "fst ` set rest \<inter> fst ` set (outer @ [it]) = {}"
    using Cons.prems(1,2) by auto
  have step: "write_sd_entry m it outer = Inr (outer @ [it])"
    by (simp add: write_sd_entry_def mutable_absent [OF absent] update_absent [OF absent] inner)
  show ?case
    using Cons.IH [OF _ disj] Cons.prems(1,3) by (simp add: step)
qed

lemma read_sd_entries_eq:
  assumes "distinct (map fst outer_pb)" "set entries \<subseteq> set outer_pb"
    and "distinct (map fst entries)" "fst ` set entries \<inter> fst ` set tbl = {}"
    and "\<forall>row \<in> set (map snd outer_pb). length row = m"
  shows "for_each entries (read_sd_entry outer_pb m) tbl = Inr (tbl @ entries)"
  using assms(2,3,4)
proof (induction entries arbitrary: tbl)
  case Nil
  show ?case by simp
next
  case (Cons it rest)
  have absent: "fst it \<notin> fst ` set tbl" using Cons.prems(3) by auto
  have mem: "it \<in> set outer_pb" using Cons.prems(1) by simp
  have len: "length (replicate m (0::real)) = length (snd it)" "length (snd it) = m"
    using mem assms(5) by auto
  have inner: "for_each [0..<m] (read_cell (snd it)) (replicate m 0) = Inr (snd it)"
    using read_cell_row [OF len(1)] len(2) by simp
  have disj: "fst ` set rest \<inter> fst ` set (tbl @ [it]) = {}"
    using Cons.prems(2,3) by auto
  have step: "read_sd_entry outer_pb m it tbl = Inr (tbl @ [it])"
    by (simp add: read_sd_entry_def mutable_absent [OF absent] update_absent [OF absent]
          mutable_present [OF assms(1) mem] inner)
  show ?case
    using Cons.IH [OF _ _ disj] Cons.prems(1,2) by (simp add: step)
qed

lemma SparseDense_Write_pb_eq:
  assumes "sparse_dense_wf m"
  shows "SparseDense_Write_pb m md =
           Inr \<lparr>metadata = md, pb_inner_size = inner_size m, pb_table = table m\<rparr>"
  using assms write_sd_entries_eq [of "table m" "[]" "inner_size m"]
  by (simp add: SparseDense_Write_pb_def empty_pb_def sparse_dense_wf_def)

lemma SparseDense_Read_eq:
  assumes "distinct (map fst (pb_table pb))"
    and "\<forall>row \<in> set (map snd (pb_table pb)). length row = pb_inner_size pb"
    and "ParseFromIstream bytes = Some pb"
  shows "SparseDense_Read ParseFromIstream bytes =
           Inr \<lparr>outer_size = length (pb_table pb), inner_size = pb_inner_size pb,
                 table = pb_table pb\<rparr>"
  using assms read_sd_entries_eq [of "pb_table pb" "pb_table pb" "[]" "pb_inner_size pb"]
  by (simp add: SparseDense_Read_def Sparse_Base_def Let_def)

lemma SparseDense_roundtrip:
  assumes wf: "sparse_dense_wf m"
    and written: "SparseDense_Write SerializeToOstream m md = Inr (Some bytes)"
    and codec: "\<forall>pb b. SerializeToOstream pb = Some b \<longrightarrow> ParseFromIstream b = Some pb"
  shows "SparseDense_Read ParseFromIstream bytes = Inr (m\<lparr>outer_size := length (table m)\<rparr>)"
proof -
  have "SerializeToOstream \<lparr>metadata = md, pb_inner_size = inner_size m, pb_table = table m\<rparr>
          = Some bytes"
    using written by (simp add: SparseDense_Write_def SparseDense_Write_pb_eq [OF wf])
  then have "ParseFromIstream bytes =
      Some \<lparr>metadata = md, pb_inner_size = inner_size m, pb_table = table m\<rparr>"
    using codec by blast
  then show ?thesis
    using SparseDense_Read_eq [of "\<lparr>metadata = md, pb_inner_size = inner_size m, pb_table = table m\<rparr>"
        ParseFromIstream bytes] wf
    by (simp add: sparse_dense_wf_def)
qed

lemma write_ss_cells_eq:
  assumes "distinct (map fst cells)" "fst ` set cells \<inter> fst ` set acc = {}"
  shows "fold write_ss_cell cells acc = acc @ filter (\<lambda>iit. fst iit \<noteq> []) cells"
  using assms
proof (induction cells arbitrary: acc)
  case Nil
  show ?case by simp
next
  case (Cons iit rest)
  have absent: "fst iit \<notin> fst ` set acc" using Cons.prems(2) by auto
  show ?case
  proof (cases "fst iit = []")
    case True
    have "fst ` set rest \<inter> fst ` set acc = {}" using Cons.prems(2) by auto
    then show ?thesis using Cons.IH [of acc] Cons.prems(1) True by (simp add: write_ss_cell_def)
  next
    case False
    have disj: "fst ` set rest \<inter> fst ` set (acc @ [iit]) = {}"
      using Cons.prems(1,2) by auto
    show ?thesis
      using Cons.IH [OF _ disj] Cons.prems(1) False
      by (simp add: write_ss_cell_def update_absent [OF absent])
  qed
qed

lemma write_ss_entries_eq:
  assumes "distinct (map fst entries)" "fst ` set entries \<inter> fst ` set outer = {}"
    and "\<forall>inner \<in> set (map snd entries). distinct (map fst inner)"
  shows "fold write_ss_entry entries outer =
           outer @ map (\<lambda>it. (fst it, filter (\<lambda>iit. fst iit \<noteq> []) (snd it))) entries"
  using assms
proof (induction entries arbitrary: outer)
  case Nil
  show ?case by simp
next
  case (Cons it rest)
  have absent: "fst it \<notin> fst ` set outer" using Cons.prems(2) by auto
  have inner: "fold write_ss_cell (snd it) [] = filter (\<lambda>iit. fst iit \<noteq> []) (snd it)"
    using write_ss_cells_eq [of "snd it" "[]"] Cons.prems(3) by simp
  have disj: "fst ` set rest \<inter>
      fst ` set (outer @ [(fst it, filter (\<lambda>iit. fst iit \<noteq> []) (snd it))]) = {}"
    using Cons.prems(1,2) by auto
  have step: "write_ss_entry it outer =
      outer @ [(fst it, filter (\<lambda>iit. fst iit \<noteq> []) (snd it))]"
    by (simp add: write_ss_entry_def mutable_absent [OF absent] update_absent [OF absent] inner)
  show ?case
    using Cons.IH [OF _ disj] Cons.prems(1,3) by (simp add: step)
qed

lemma read_ss_cells_eq:
  assumes "distinct (map fst cells)" "fst ` set cells \<inter> fst ` set acc = {}"
  shows "fold (\<lambda>iit inner. AList.update (fst iit) (snd iit) inner) cells acc = acc @ cells"
  using assms
proof (induction cells arbitrary: acc)
  case Nil
  show ?case by simp
next
  case (Cons iit rest)
  have absent: "fst iit \<notin> fst ` set acc" using Cons.prems(2) by auto
  have disj: "fst ` set rest \<inter> fst ` set (acc @ [iit]) = {}"
    using Cons.prems(1,2) by auto
  show ?case
    using Cons.IH [OF _ disj] Cons.prems(1) by (simp add: update_absent [OF absent])
qed

lemma read_ss_entries_eq:
  assumes "distinct (map fst outer_pb)" "set entries \<subseteq> set outer_pb"
    and "distinct (map fst entries)" "fst ` set entries \<inter> fst ` set tbl = {}"
    and "\<forall>inner \<in> set (map snd outer_pb). distinct (map fst inner)"
  shows "fold (read_ss_entry outer_pb) entries tbl = tbl @ entries"
  using assms(2,3,4)
proof (induction entries arbitrary: tbl)
  case Nil
  show ?case by simp
next
  case (Cons it rest)
  have absent: "fst it \<notin> fst ` set tbl" using Cons.prems(3) by auto
  have mem: "it \<in> set outer_pb" using Cons.prems(1) by simp
  have "distinct (map fst (snd it))" using mem assms(5) by auto
  then have inner: "fold (\<lambda>iit inner. AList.update (fst iit) (snd iit) inner) (snd it) [] = snd it"
    using read_ss_cells_eq [of "snd it" "[]"] by simp
  have disj: "fst ` set rest \<inter> fst ` set (tbl @ [it]) = {}"
    using Cons.prems(2,3) by auto
  have step: "read_ss_entry outer_pb it tbl = tbl @ [it]"
    by (simp add: read_ss_entry_def mutable_absent [OF absent] update_absent [OF absent]
          mutable_present [OF assms(1) mem] inner)
  show ?case
    using Cons.IH [OF _ _ disj] Cons.prems(1,2) by (simp add: step)
qed

lemma Sparse_Write_pb_eq:
  assumes "sparse_wf m"
  shows "Sparse_Write_pb m md =
           \<lparr>metadata = md, pb_inner_size = inner_size m, pb_table = drop_reserved (table m)\<rparr>"
  using assms write_ss_entries_eq [of "table m" "[]"]
  by (simp add: Sparse_Write_pb_def empty_pb_def sparse_wf_def drop_reserved_def)

lemma Sparse_Read_eq:
  assumes "distinct (map fst (pb_table pb))"
    and "\<forall>inner \<in> set (map snd (pb_table pb)). distinct (map fst inner)"
    and "ParseFromIstream bytes = Some pb"
  shows "Sparse_Read ParseFromIstream bytes =
           Inr \<lparr>outer_size = length (pb_table pb), inner_size = pb_inner_size pb,
                 table = pb_table pb\<rparr>"
  using assms read_ss_entries_eq [of "pb_table pb" "pb_table pb" "[]"]
  by (simp add: Sparse_Read_def Sparse_Base_def Let_def)

lemma drop_reserved_wf:
  assumes "sparse_wf m"
  shows "distinct (map fst (drop_reserved (table m)))"
    and "\<forall>inner \<in> set (map snd (drop_reserved (table m))). distinct (map fst inner)"
proof -
  have "map fst (drop_reserved (table m)) = map fst (table m)"
    by (simp add: drop_reserved_def comp_def)
  then show "distinct (map fst (drop_reserved (table m)))"
    using assms by (simp add: sparse_wf_def)
  show "\<forall>inner \<in> set (map snd (drop_reserved (table m))). distinct (map fst inner)"
    using assms by (auto simp: sparse_wf_def drop_reserved_def distinct_map_filter)
qed

lemma Sparse_roundtrip:
  assumes wf: "sparse_wf m"
    and written: "Sparse_Write SerializeToOstream m md = Some bytes"
    and codec: "\<forall>pb b. SerializeToOstream pb = Some b \<longrightarrow> ParseFromIstream b = Some pb"
  shows "Sparse_Read ParseFromIstream bytes =
           Inr \<lparr>outer_size = length (table m), inner_size = inner_size m,
                 table = drop_reserved (table m)\<rparr>"
proof -
  let ?pb = "\<lparr>metadata = md, pb_inner_size = inner_size m, pb_table = drop_reserved (table m)\<rparr>"
  have "SerializeToOstream ?pb = Some bytes"
    using written by (simp add: Sparse_Write_def Sparse_Write_pb_eq [OF wf])
  then have "ParseFromIstream bytes = Some ?pb"
    using codec by blast
  then show ?thesis
    using Sparse_Read_eq [of ?pb ParseFromIstream bytes] drop_reserved_wf [OF wf]
    by (simp add: drop_reserved_def)
qed

subsection \<open>The reserved key and single cells\<close>

lemma update_keys_set: "fst ` set (AList.update k v al) = insert k (fst ` set al)"
  by (induction al) auto

lemma update_set_subset: "set (AList.update k v al) \<subseteq> insert (k, v) (set al)"
  by (induction al) auto

lemma mutable_cases: "mutable tbl k dflt = dflt \<or> (k, mutable tbl k dflt) \<in> set tbl"
  by (auto simp: mutable_def dest: map_of_SomeD split: option.split)

lemma no_reserved_update:
  assumes "no_reserved tbl" "[] \<notin> fst ` set inner"
  shows "no_reserved (AList.update k inner tbl)"
  using assms update_set_subset [of k inner tbl]
  by (fastforce simp: no_reserved_def)

lemma no_reserved_mutable:
  assumes "no_reserved tbl"
  shows "[] \<notin> fst ` set (mutable tbl k [])"
proof -
  from mutable_cases [of tbl k "[]"] show ?thesis
  proof
    assume "mutable tbl k [] = []"
    then show ?thesis by simp
  next
    assume "(k, mutable tbl k []) \<in> set tbl"
    with assms have "[] \<notin> fst ` set (snd (k, mutable tbl k []))"
      unfolding no_reserved_def by blast
    then show ?thesis by simp
  qed
qed

lemma write_ss_cells_keys:
  "[] \<notin> fst ` set acc \<Longrightarrow> [] \<notin> fst ` set (fold write_ss_cell cells acc)"
proof (induction cells arbitrary: acc)
  case Nil
  then show ?case by simp
next
  case (Cons iit rest)
  have "[] \<notin> fst ` set (write_ss_cell iit acc)"
    using Cons.prems by (simp add: write_ss_cell_def update_keys_set)
  then show ?case using Cons.IH by simp
qed

lemma write_ss_entries_no_reserved:
  "no_reserved outer \<Longrightarrow> no_reserved (fold write_ss_entry entries outer)"
proof (induction entries arbitrary: outer)
  case Nil
  then show ?case by simp
next
  case (Cons it rest)
  have "[] \<notin> fst ` set (fold write_ss_cell (snd it) (mutable outer (fst it) []))"
    using write_ss_cells_keys no_reserved_mutable [OF Cons.prems] by blast
  then have "no_reserved (write_ss_entry it outer)"
    using Cons.prems by (simp add: write_ss_entry_def no_reserved_update)
  then show ?case using Cons.IH by simp
qed

lemma freeze_ss_cells_keys:
  "[] \<notin> fst ` set ref \<Longrightarrow> [] \<notin> fst ` set (fst (freeze_ss_cells now cells ref))"
proof (induction cells arbitrary: ref)
  case Nil
  then show ?case by simp
next
  case (Cons iit rest)
  show ?case
  proof (cases "fst iit = []")
    case True
    then show ?thesis using Cons.IH [OF Cons.prems] by (simp add: case_prod_unfold)
  next
    case False
    obtain v c' where ga: "GetAverage (snd iit) now = (v, c')"
      by (cases "GetAverage (snd iit) now")
    have "[] \<notin> fst ` set (AList.update (fst iit) v ref)"
      using Cons.prems False by (simp add: update_keys_set)
    then show ?thesis using Cons.IH False by (simp add: ga case_prod_unfold)
  qed
qed

lemma freeze_ss_entries_no_reserved:
  "no_reserved tbl \<Longrightarrow> no_reserved (fst (freeze_ss_entries now entries tbl))"
proof (induction entries arbitrary: tbl)
  case Nil
  then show ?case by simp
next
  case (Cons it rest)
  obtain ref avg_inner where cells:
    "freeze_ss_cells now (snd it) (mutable tbl (fst it) []) = (ref, avg_inner)"
    by (cases "freeze_ss_cells now (snd it) (mutable tbl (fst it) [])")
  have "[] \<notin> fst ` set ref"
    using freeze_ss_cells_keys [OF no_reserved_mutable [OF Cons.prems], of now "snd it" "fst it"]
    by (simp add: cells)
  then have "no_reserved (AList.update (fst it) ref tbl)"
    using Cons.prems by (simp add: no_reserved_update)
  then show ?case using Cons.IH by (simp add: cells case_prod_unfold)
qed

lemma map_of_map_snd: "map_of (map (\<lambda>it. (fst it, f (snd it))) xs) k = map_option f (map_of xs k)"
  by (induction xs) auto

lemma map_of_drop_empty:
  "map_of (filter (\<lambda>iit. fst iit \<noteq> []) inner) l = (if l = [] then None else map_of inner l)"
  by (induction inner) auto

lemma cell_drop_reserved:
  "cell (drop_reserved tbl) k l = (if l = [] then None else cell tbl k l)"
  by (simp add: cell_def drop_reserved_def map_of_map_snd map_of_drop_empty split: option.split)

lemma cell_frozen:
  "cell (map (\<lambda>it. (fst it, map (\<lambda>iit. (fst iit, f (snd iit)))
                             (filter (\<lambda>iit. fst iit \<noteq> []) (snd it)))) tbl) k l =
     (if l = [] then None else map_option f (cell tbl k l))"
proof -
  let ?F = "\<lambda>inner. map (\<lambda>iit. (fst iit, f (snd iit))) (filter (\<lambda>iit. fst iit \<noteq> []) inner)"
  have inner: "map_of (?F inner) l = (if l = [] then None else map_option f (map_of inner l))"
    for inner
    using map_of_map_snd [of f "filter (\<lambda>iit. fst iit \<noteq> []) inner" l]
    by (simp add: map_of_drop_empty)
  have outer: "map_of (map (\<lambda>it. (fst it, ?F (snd it))) tbl) k = map_option ?F (map_of tbl k)"
    by (rule map_of_map_snd)
  show ?thesis
  proof (cases "map_of tbl k")
    case None
    then show ?thesis using outer by (simp add: cell_def)
  next
    case (Some x)
    then show ?thesis using outer inner [of x] by (simp add: cell_def)
  qed
qed

lemma Get_GetAverage: "Get (snd (GetAverage c now)) = Get c"
  by (simp add: GetAverage_def Freshen_def Get_def Let_def)

section \<open>Reading a malformed stream\<close>











section \<open>The reserved empty-string label\<close>

text \<open>
  Claim C7.  For every fully sparse model, \<open>Write\<close> serializes a message none of whose
  inner tables has a cell keyed by the reserved empty string, whether or not the model's
  own table has such a cell.
\<close>

theorem Sparse_Write_omits_reserved:
  "Sparse_Write SerializeToOstream m md = SerializeToOstream (Sparse_Write_pb m md) \<and>
   no_reserved (pb_table (Sparse_Write_pb m md))"
proof
  show "Sparse_Write SerializeToOstream m md = SerializeToOstream (Sparse_Write_pb m md)"
    by (simp add: Sparse_Write_def)
  have "no_reserved ([] :: (string \<times> (string \<times> real) list) list)"
    by (simp add: no_reserved_def)
  then show "no_reserved (pb_table (Sparse_Write_pb m md))"
    using write_ss_entries_no_reserved [of "[]" "table m"]
    by (simp add: Sparse_Write_pb_def empty_pb_def)
qed

theorem Sparse_Write_omits_reserved_witness:
  "Sparse_Write_pb
     \<lparr>outer_size = 1, inner_size = 2, table = [(''bias'', [([], 5), (''NOUN'', 2)])]\<rparr> ''m''
   = \<lparr>metadata = ''m'', pb_inner_size = 2, pb_table = [(''bias'', [(''NOUN'', 2)])]\<rparr> \<and>
   no_reserved (pb_table (Sparse_Write_pb
     \<lparr>outer_size = 1, inner_size = 2, table = [(''bias'', [([], 5), (''NOUN'', 2)])]\<rparr> ''m''))"
  using Sparse_Write_omits_reserved
    [of Some "\<lparr>outer_size = 1, inner_size = 2, table = [(''bias'', [([], 5), (''NOUN'', 2)])]\<rparr>"
        "''m''"]
  by (simp add: Sparse_Write_pb_def empty_pb_def write_ss_entry_def write_ss_cell_def mutable_def)

text \<open>
  Claim C10.  When a fully sparse averaged model is frozen, the inner cells keyed by the
  reserved empty string are skipped: no inner table of the frozen model has an
  empty-string label key, whatever the averaged model's table holds.
\<close>

theorem Sparse_freeze_no_reserved:
  "no_reserved (table (fst (Sparse_MultinomialPerceptronTpl avg)))"
proof -
  have "no_reserved ([] :: (string \<times> (string \<times> real) list) list)"
    by (simp add: no_reserved_def)
  then have "no_reserved (fst (freeze_ss_entries (time avg) (table avg) []))"
    by (rule freeze_ss_entries_no_reserved)
  then show ?thesis
    by (simp add: Sparse_MultinomialPerceptronTpl_def Sparse_Base_def case_prod_unfold Let_def)
qed

theorem Sparse_freeze_no_reserved_witness:
  "table (fst (Sparse_MultinomialPerceptronTpl avg_example)) = [(''bias'', [(''NOUN'', 1)])] \<and>
   no_reserved (table (fst (Sparse_MultinomialPerceptronTpl avg_example)))"
  using Sparse_freeze_no_reserved [of avg_example]
  by (simp add: Sparse_MultinomialPerceptronTpl_def Sparse_Base_def avg_example_def mutable_def
        GetAverage_def Freshen_def Let_def)

section \<open>Freezing\<close>

lemma fst_GetAverage_examples:
  "fst (GetAverage \<lparr>true_weight = 1, averaged_weight = 2, last_update_time = 2\<rparr> 4) = 1"
  "fst (GetAverage zero_cell 4) = 0"
  "fst (GetAverage \<lparr>true_weight = - 1, averaged_weight = 0, last_update_time = 0\<rparr> 4) = - 1"
  "fst (GetAverage \<lparr>true_weight = 2, averaged_weight = 0, last_update_time = 3\<rparr> 4) = 1 / 2"
  by (simp_all add: GetAverage_def Freshen_def zero_cell_def)

text \<open>
  Claim C2.  Freezing an averaged model constructs an unaveraged model with the same outer
  and inner size in which every present cell holds \<open>GetAverage\<close> of the corresponding
  averaged cell at the averaged model's clock value.  For the dense and the sparse/dense
  topology the frozen table is the averaged table with every cell replaced by its average;
  for the fully sparse topology the frozen table has the same feature keys and each of
  its cells is the average of the averaged cell under the same keys (the cells under the
  reserved empty label are not present in the frozen model).
\<close>

theorem freeze_takes_averages:
  "(dense_wf avg_d \<longrightarrow>
      (\<exists>m avg'. Dense_MultinomialPerceptronTpl avg_d = Inr (m, avg') \<and>
         outer_size m = outer_size avg_d \<and> inner_size m = inner_size avg_d \<and>
         table m = map (map (\<lambda>c. fst (GetAverage c (time avg_d)))) (table avg_d))) \<and>
   (sparse_dense_wf avg_sd \<longrightarrow>
      (\<exists>m avg'. SparseDense_MultinomialPerceptronTpl avg_sd = Inr (m, avg') \<and>
         outer_size m = outer_size avg_sd \<and> inner_size m = inner_size avg_sd \<and>
         table m = map (\<lambda>it. (fst it, map (\<lambda>c. fst (GetAverage c (time avg_sd))) (snd it)))
                     (table avg_sd))) \<and>
   (sparse_wf avg_s \<longrightarrow>
      (\<exists>m avg'. Sparse_MultinomialPerceptronTpl avg_s = (m, avg') \<and>
         outer_size m = outer_size avg_s \<and> inner_size m = inner_size avg_s \<and>
         map fst (table m) = map fst (table avg_s) \<and>
         (\<forall>k l. cell (table m) k l =
            (if l = [] then None
             else map_option (\<lambda>c. fst (GetAverage c (time avg_s))) (cell (table avg_s) k l)))))"
proof (intro conjI impI)
  assume "dense_wf avg_d"
  then show "\<exists>m avg'. Dense_MultinomialPerceptronTpl avg_d = Inr (m, avg') \<and>
         outer_size m = outer_size avg_d \<and> inner_size m = inner_size avg_d \<and>
         table m = map (map (\<lambda>c. fst (GetAverage c (time avg_d)))) (table avg_d)"
    by (simp add: Dense_freeze)
next
  assume "sparse_dense_wf avg_sd"
  then show "\<exists>m avg'. SparseDense_MultinomialPerceptronTpl avg_sd = Inr (m, avg') \<and>
         outer_size m = outer_size avg_sd \<and> inner_size m = inner_size avg_sd \<and>
         table m = map (\<lambda>it. (fst it, map (\<lambda>c. fst (GetAverage c (time avg_sd))) (snd it)))
                     (table avg_sd)"
    by (simp add: SparseDense_freeze)
next
  assume "sparse_wf avg_s"
  then show "\<exists>m avg'. Sparse_MultinomialPerceptronTpl avg_s = (m, avg') \<and>
         outer_size m = outer_size avg_s \<and> inner_size m = inner_size avg_s \<and>
         map fst (table m) = map fst (table avg_s) \<and>
         (\<forall>k l. cell (table m) k l =
            (if l = [] then None
             else map_option (\<lambda>c. fst (GetAverage c (time avg_s))) (cell (table avg_s) k l)))"
    using cell_frozen [of "\<lambda>c. fst (GetAverage c (time avg_s))" "table avg_s"]
    by (simp add: Sparse_freeze comp_def)
qed

theorem freeze_takes_averages_witness:
  "dense_wf dense_avg_example \<and>
   map_sum id (\<lambda>r. table (fst r)) (Dense_MultinomialPerceptronTpl dense_avg_example)
     = Inr [[1, 0], [- 1, 1 / 2]] \<and>
   sparse_dense_wf sparse_dense_avg_example \<and>
   map_sum id (\<lambda>r. table (fst r)) (SparseDense_MultinomialPerceptronTpl sparse_dense_avg_example)
     = Inr [(''bias'', [1, 0]), (''tok=foo'', [- 1, 1 / 2])] \<and>
   sparse_wf avg_example \<and>
   cell (table (fst (Sparse_MultinomialPerceptronTpl avg_example))) ''bias'' ''NOUN'' = Some 1 \<and>
   cell (table (fst (Sparse_MultinomialPerceptronTpl avg_example))) ''bias'' [] = None"
proof -
  have d: "dense_wf dense_avg_example"
    by (simp add: dense_wf_def dense_avg_example_def)
  have sd: "sparse_dense_wf sparse_dense_avg_example"
    by (simp add: sparse_dense_wf_def sparse_dense_avg_example_def)
  have s: "sparse_wf avg_example"
    by (simp add: sparse_wf_def avg_example_def)
  have td: "map (map (\<lambda>c. fst (GetAverage c (time dense_avg_example)))) (table dense_avg_example)
      = [[1, 0], [- 1, 1 / 2]]"
    by (simp add: dense_avg_example_def fst_GetAverage_examples)
  have tsd: "map (\<lambda>it. (fst it, map (\<lambda>c. fst (GetAverage c (time sparse_dense_avg_example))) (snd it)))
       (table sparse_dense_avg_example) = [(''bias'', [1, 0]), (''tok=foo'', [- 1, 1 / 2])]"
    by (simp add: sparse_dense_avg_example_def fst_GetAverage_examples)
  have cs: "cell (table avg_example) ''bias'' ''NOUN''
      = Some \<lparr>true_weight = 1, averaged_weight = 2, last_update_time = 2\<rparr>"
    "time avg_example = 4"
    by (simp_all add: cell_def avg_example_def)
  from freeze_takes_averages [of dense_avg_example sparse_dense_avg_example avg_example] d sd s
  show ?thesis
    by (auto simp: td tsd cs fst_GetAverage_examples)
qed

text \<open>
  Claim C9.  Freezing does not change what the averaged model shows: after the frozen
  model is constructed, the averaged model has the same clock and sizes, the same keys,
  and every cell's \<open>Get\<close> (its true weight) is as before.  The freshening done by
  \<open>GetAverage\<close> changes only the cached sum and the time stamp of a cell.
\<close>

theorem freeze_leaves_averaged_model:
  "(dense_wf avg_d \<longrightarrow>
      (\<exists>m avg'. Dense_MultinomialPerceptronTpl avg_d = Inr (m, avg') \<and>
         time avg' = time avg_d \<and>
         outer_size avg' = outer_size avg_d \<and> inner_size avg' = inner_size avg_d \<and>
         map (map Get) (table avg') = map (map Get) (table avg_d))) \<and>
   (sparse_dense_wf avg_sd \<longrightarrow>
      (\<exists>m avg'. SparseDense_MultinomialPerceptronTpl avg_sd = Inr (m, avg') \<and>
         time avg' = time avg_sd \<and>
         outer_size avg' = outer_size avg_sd \<and> inner_size avg' = inner_size avg_sd \<and>
         map (\<lambda>it. (fst it, map Get (snd it))) (table avg')
           = map (\<lambda>it. (fst it, map Get (snd it))) (table avg_sd))) \<and>
   (sparse_wf avg_s \<longrightarrow>
      (\<exists>m avg'. Sparse_MultinomialPerceptronTpl avg_s = (m, avg') \<and>
         time avg' = time avg_s \<and>
         outer_size avg' = outer_size avg_s \<and> inner_size avg' = inner_size avg_s \<and>
         map (\<lambda>it. (fst it, map (\<lambda>iit. (fst iit, Get (snd iit))) (snd it))) (table avg')
           = map (\<lambda>it. (fst it, map (\<lambda>iit. (fst iit, Get (snd iit))) (snd it))) (table avg_s)))"
proof (intro conjI impI)
  assume "dense_wf avg_d"
  then show "\<exists>m avg'. Dense_MultinomialPerceptronTpl avg_d = Inr (m, avg') \<and>
         time avg' = time avg_d \<and>
         outer_size avg' = outer_size avg_d \<and> inner_size avg' = inner_size avg_d \<and>
         map (map Get) (table avg') = map (map Get) (table avg_d)"
    by (simp add: Dense_freeze comp_def Get_GetAverage)
next
  assume "sparse_dense_wf avg_sd"
  then show "\<exists>m avg'. SparseDense_MultinomialPerceptronTpl avg_sd = Inr (m, avg') \<and>
         time avg' = time avg_sd \<and>
         outer_size avg' = outer_size avg_sd \<and> inner_size avg' = inner_size avg_sd \<and>
         map (\<lambda>it. (fst it, map Get (snd it))) (table avg')
           = map (\<lambda>it. (fst it, map Get (snd it))) (table avg_sd)"
    by (simp add: SparseDense_freeze comp_def Get_GetAverage)
next
  assume "sparse_wf avg_s"
  have cellwise: "(\<lambda>iit. (fst (if fst iit = [] then iit else (fst iit, snd (GetAverage (snd iit) now))),
                     Get (snd (if fst iit = [] then iit else (fst iit, snd (GetAverage (snd iit) now))))))
                  = (\<lambda>iit. (fst iit, Get (snd iit)))" for now
    by (rule ext) (simp add: Get_GetAverage)
  from \<open>sparse_wf avg_s\<close>
  show "\<exists>m avg'. Sparse_MultinomialPerceptronTpl avg_s = (m, avg') \<and>
         time avg' = time avg_s \<and>
         outer_size avg' = outer_size avg_s \<and> inner_size avg' = inner_size avg_s \<and>
         map (\<lambda>it. (fst it, map (\<lambda>iit. (fst iit, Get (snd iit))) (snd it))) (table avg')
           = map (\<lambda>it. (fst it, map (\<lambda>iit. (fst iit, Get (snd iit))) (snd it))) (table avg_s)"
    by (simp add: Sparse_freeze comp_def cellwise)
qed

theorem freeze_leaves_averaged_model_witness:
  "dense_wf dense_avg_example \<and>
   map_sum id (\<lambda>r. (time (snd r), map (map Get) (table (snd r))))
     (Dense_MultinomialPerceptronTpl dense_avg_example) = Inr (4, [[1, 0], [- 1, 2]]) \<and>
   sparse_dense_wf sparse_dense_avg_example \<and>
   map_sum id (\<lambda>r. (time (snd r), map (\<lambda>it. (fst it, map Get (snd it))) (table (snd r))))
     (SparseDense_MultinomialPerceptronTpl sparse_dense_avg_example)
     = Inr (4, [(''bias'', [1, 0]), (''tok=foo'', [- 1, 2])]) \<and>
   sparse_wf avg_example \<and>
   time (snd (Sparse_MultinomialPerceptronTpl avg_example)) = 4 \<and>
   map (\<lambda>it. (fst it, map (\<lambda>iit. (fst iit, Get (snd iit))) (snd it)))
     (table (snd (Sparse_MultinomialPerceptronTpl avg_example)))
     = [(''bias'', [([], 3), (''NOUN'', 1)])]"
proof -
  have d: "dense_wf dense_avg_example"
    by (simp add: dense_wf_def dense_avg_example_def)
  have sd: "sparse_dense_wf sparse_dense_avg_example"
    by (simp add: sparse_dense_wf_def sparse_dense_avg_example_def)
  have s: "sparse_wf avg_example"
    by (simp add: sparse_wf_def avg_example_def)
  have td: "map (map Get) (table dense_avg_example) = [[1, 0], [- 1, 2]]"
    "time dense_avg_example = 4"
    by (simp_all add: dense_avg_example_def Get_def zero_cell_def)
  have tsd: "map (\<lambda>it. (fst it, map Get (snd it))) (table sparse_dense_avg_example)
      = [(''bias'', [1, 0]), (''tok=foo'', [- 1, 2])]"
    "time sparse_dense_avg_example = 4"
    by (simp_all add: sparse_dense_avg_example_def Get_def zero_cell_def)
  have ts: "map (\<lambda>it. (fst it, map (\<lambda>iit. (fst iit, Get (snd iit))) (snd it))) (table avg_example)
      = [(''bias'', [([], 3), (''NOUN'', 1)])]"
    "time avg_example = 4"
    by (simp_all add: avg_example_def Get_def)
  from freeze_leaves_averaged_model [of dense_avg_example sparse_dense_avg_example avg_example]
    d sd s
  show ?thesis
    by (auto simp: td tsd ts)
qed

section \<open>Writing a model and reading it back\<close>

text \<open>
  Claim C1, as amended.  For every topology and every well-formed unaveraged model (dense
  rows of the inner size, distinct keys in sparse tables), when \<open>Write\<close> succeeds and the
  container parser gives back the message that was serialized, \<open>Read\<close> constructs a model
  with the same inner size and the same cells, with one exception: in the fully sparse
  topology the cells keyed by the reserved empty-string label are not written, so they are
  absent after reading.  The metadata string is stored verbatim in the written message;
  \<open>Read\<close> returns the model alone and does not give the metadata back.  For a sparse
  outer table the outer size of the model read back is the number of entries.
\<close>

theorem Write_Read_roundtrip:
  "(dense_wf m_d \<and> (\<forall>pb b. SerializeDense pb = Some b \<longrightarrow> ParseDense b = Some pb) \<and>
    Dense_Write SerializeDense m_d md = Some bytes_d
      \<longrightarrow> Dense_Read ParseDense bytes_d = Inr m_d \<and> metadata (Dense_Write_pb m_d md) = md) \<and>
   (sparse_dense_wf m_sd \<and>
    (\<forall>pb b. SerializeSparseDense pb = Some b \<longrightarrow> ParseSparseDense b = Some pb) \<and>
    SparseDense_Write SerializeSparseDense m_sd md = Inr (Some bytes_sd)
      \<longrightarrow> SparseDense_Read ParseSparseDense bytes_sd
            = Inr (m_sd\<lparr>outer_size := length (table m_sd)\<rparr>) \<and>
          map_sum id metadata (SparseDense_Write_pb m_sd md) = Inr md) \<and>
   (sparse_wf m_s \<and> (\<forall>pb b. SerializeSparse pb = Some b \<longrightarrow> ParseSparse b = Some pb) \<and>
    Sparse_Write SerializeSparse m_s md = Some bytes_s
      \<longrightarrow> (\<exists>m'. Sparse_Read ParseSparse bytes_s = Inr m' \<and>
                inner_size m' = inner_size m_s \<and>
                map fst (table m') = map fst (table m_s) \<and>
                (\<forall>k l. cell (table m') k l = (if l = [] then None else cell (table m_s) k l))) \<and>
          metadata (Sparse_Write_pb m_s md) = md)"
proof (intro conjI impI)
  assume a: "dense_wf m_d \<and> (\<forall>pb b. SerializeDense pb = Some b \<longrightarrow> ParseDense b = Some pb) \<and>
    Dense_Write SerializeDense m_d md = Some bytes_d"
  then have "ParseDense bytes_d = Some (Dense_Write_pb m_d md)"
    by (simp add: Dense_Write_def)
  with a show "Dense_Read ParseDense bytes_d = Inr m_d"
    using Dense_roundtrip [of m_d SerializeDense md bytes_d ParseDense] by blast
  show "metadata (Dense_Write_pb m_d md) = md"
    by (simp add: Dense_Write_pb_def)
next
  assume a: "sparse_dense_wf m_sd \<and>
    (\<forall>pb b. SerializeSparseDense pb = Some b \<longrightarrow> ParseSparseDense b = Some pb) \<and>
    SparseDense_Write SerializeSparseDense m_sd md = Inr (Some bytes_sd)"
  then show "SparseDense_Read ParseSparseDense bytes_sd
            = Inr (m_sd\<lparr>outer_size := length (table m_sd)\<rparr>)"
    using SparseDense_roundtrip [of m_sd SerializeSparseDense md bytes_sd ParseSparseDense]
    by blast
  from a show "map_sum id metadata (SparseDense_Write_pb m_sd md) = Inr md"
    by (simp add: SparseDense_Write_pb_eq)
next
  assume a: "sparse_wf m_s \<and> (\<forall>pb b. SerializeSparse pb = Some b \<longrightarrow> ParseSparse b = Some pb) \<and>
    Sparse_Write SerializeSparse m_s md = Some bytes_s"
  then have "Sparse_Read ParseSparse bytes_s =
           Inr \<lparr>outer_size = length (table m_s), inner_size = inner_size m_s,
                 table = drop_reserved (table m_s)\<rparr>"
    using Sparse_roundtrip [of m_s SerializeSparse md bytes_s ParseSparse] by blast
  moreover have "map fst (drop_reserved (table m_s)) = map fst (table m_s)"
    by (simp add: drop_reserved_def comp_def)
  ultimately show "\<exists>m'. Sparse_Read ParseSparse bytes_s = Inr m' \<and>
                inner_size m' = inner_size m_s \<and>
                map fst (table m') = map fst (table m_s) \<and>
                (\<forall>k l. cell (table m') k l = (if l = [] then None else cell (table m_s) k l))"
    by (simp add: cell_drop_reserved)
  from a show "metadata (Sparse_Write_pb m_s md) = md"
    by (simp add: Sparse_Write_pb_eq)
qed

theorem Write_Read_roundtrip_witness:
  "dense_wf dense_example \<and>
   Dense_Write Some dense_example ''v1'' = Some (Dense_Write_pb dense_example ''v1'') \<and>
   Dense_Read Some (Dense_Write_pb dense_example ''v1'') = Inr dense_example \<and>
   sparse_dense_wf sparse_dense_example \<and>
   SparseDense_Write Some sparse_dense_example ''v1''
     = Inr (Some \<lparr>metadata = ''v1'', pb_inner_size = 2, pb_table = table sparse_dense_example\<rparr>) \<and>
   SparseDense_Read Some \<lparr>metadata = ''v1'', pb_inner_size = 2, pb_table = table sparse_dense_example\<rparr>
     = Inr (sparse_dense_example\<lparr>outer_size := 2\<rparr>) \<and>
   sparse_wf sparse_example \<and>
   Sparse_Write Some sparse_example ''v1''
     = Some \<lparr>metadata = ''v1'', pb_inner_size = 2, pb_table = [(''bias'', [(''NOUN'', 2)])]\<rparr> \<and>
   map_sum id (\<lambda>m'. cell (table m') ''bias'' ''NOUN'')
     (Sparse_Read Some \<lparr>metadata = ''v1'', pb_inner_size = 2, pb_table = [(''bias'', [(''NOUN'', 2)])]\<rparr>)
     = Inr (Some 2)"
proof -
  have d: "dense_wf dense_example"
    by (simp add: dense_wf_def dense_example_def)
  have sd: "sparse_dense_wf sparse_dense_example"
    by (simp add: sparse_dense_wf_def sparse_dense_example_def)
  have s: "sparse_wf sparse_example"
    by (simp add: sparse_wf_def sparse_example_def)
  have wd: "Dense_Write Some dense_example ''v1'' = Some (Dense_Write_pb dense_example ''v1'')"
    by (simp add: Dense_Write_def)
  have wsd: "SparseDense_Write Some sparse_dense_example ''v1''
     = Inr (Some \<lparr>metadata = ''v1'', pb_inner_size = 2, pb_table = table sparse_dense_example\<rparr>)"
    using SparseDense_Write_pb_eq [OF sd, of "''v1''"]
    by (simp add: SparseDense_Write_def) (simp add: sparse_dense_example_def)
  have ws: "Sparse_Write Some sparse_example ''v1''
     = Some \<lparr>metadata = ''v1'', pb_inner_size = 2, pb_table = [(''bias'', [(''NOUN'', 2)])]\<rparr>"
    by (simp add: Sparse_Write_def Sparse_Write_pb_def empty_pb_def sparse_example_def
          write_ss_entry_def write_ss_cell_def mutable_def)
  have len: "length (table sparse_dense_example) = 2"
    by (simp add: sparse_dense_example_def)
  have c: "cell (table sparse_example) ''bias'' ''NOUN'' = Some 2"
    by (simp add: cell_def sparse_example_def)
  from Write_Read_roundtrip
    [of dense_example Some Some "''v1''" "Dense_Write_pb dense_example ''v1''"
        sparse_dense_example Some Some
        "\<lparr>metadata = ''v1'', pb_inner_size = 2, pb_table = table sparse_dense_example\<rparr>"
        sparse_example Some Some
        "\<lparr>metadata = ''v1'', pb_inner_size = 2, pb_table = [(''bias'', [(''NOUN'', 2)])]\<rparr>"]
    d sd s wd wsd ws
  show ?thesis
    by (auto simp: len c)
qed

text \<open>
  The claim as stated fails on a fully sparse model that holds a cell under the reserved
  empty-string label: the cell is present before writing and absent after reading.  And
  the model read back is the same whatever metadata was written, so the metadata is not
  reproduced by \<open>Read\<close>.
\<close>

theorem roundtrip_counterexample:
  "sparse_wf sparse_example \<and>
   cell (table sparse_example) ''bias'' [] = Some 5 \<and>
   Sparse_Write Some sparse_example ''v1''
     = Some \<lparr>metadata = ''v1'', pb_inner_size = 2, pb_table = [(''bias'', [(''NOUN'', 2)])]\<rparr> \<and>
   Sparse_Read Some \<lparr>metadata = ''v1'', pb_inner_size = 2, pb_table = [(''bias'', [(''NOUN'', 2)])]\<rparr>
     = Inr \<lparr>outer_size = 1, inner_size = 2, table = [(''bias'', [(''NOUN'', 2)])]\<rparr> \<and>
   cell [(''bias'', [(''NOUN'', 2 :: real)])] ''bias'' [] = None \<and>
   Sparse_Read Some (Sparse_Write_pb sparse_example ''v1'')
     = Sparse_Read Some (Sparse_Write_pb sparse_example ''v2'') \<and>
   ''v1'' \<noteq> ''v2''"
  by (simp add: sparse_wf_def sparse_example_def cell_def
        Sparse_Write_def Sparse_Write_pb_def empty_pb_def write_ss_entry_def write_ss_cell_def
        mutable_def Sparse_Read_def Sparse_Base_def read_ss_entry_def)

section \<open>Lazy averaging\<close>

text \<open>
  The sum a cell has accumulated once it is freshened to time \<open>T\<close>, in closed form: every
  update contributes its delta for the time that has passed since.
\<close>

lemma Freshen_fields:
  "true_weight (Freshen c T) = true_weight c"
  "last_update_time (Freshen c T) = T"
  "averaged_weight (Freshen c T) =
     averaged_weight c + (real T - real (last_update_time c)) * true_weight c"
  by (simp_all add: Freshen_def)

lemma Update_fields:
  "true_weight (Update c d t) = true_weight c + d"
  "last_update_time (Update c d t) = t"
  "averaged_weight (Update c d t) =
     averaged_weight c + (real t - real (last_update_time c)) * true_weight c"
  by (simp_all add: Update_def Let_def Freshen_fields)

lemma lazy_sum:
  "averaged_weight (Freshen (apply_updates c us) T) =
     averaged_weight c + (real T - real (last_update_time c)) * true_weight c
     + sum_list (map (\<lambda>u. snd u * (real T - real (fst u))) us)"
proof (induction us arbitrary: c)
  case Nil
  show ?case by (simp add: Freshen_fields)
next
  case (Cons u us)
  show ?case
    by (simp add: Cons.IH Update_fields algebra_simps)
qed

lemma single_step_count:
  "sum_list (map (\<lambda>s. if t \<le> s then d else 0) [0..<T]) = d * real (T - t)"
proof (induction T)
  case 0
  show ?case by simp
next
  case (Suc T)
  show ?case
  proof (cases "t \<le> T")
    case True
    then have "Suc T - t = Suc (T - t)" by simp
    then show ?thesis using Suc.IH True by (simp add: algebra_simps)
  next
    case False
    then show ?thesis using Suc.IH by simp
  qed
qed

lemma single_step_sum:
  assumes "t \<le> T"
  shows "sum_list (map (\<lambda>s. if t \<le> s then d else 0) [0..<T]) = d * (real T - real t)"
  using assms by (simp add: single_step_count)

lemma step_weight_Cons:
  "step_weight (u # us) s = (if fst u \<le> s then snd u else 0) + step_weight us s"
  by (simp add: step_weight_def)

lemma direct_sum:
  assumes "\<forall>u \<in> set us. fst u \<le> T"
  shows "sum_list (map (step_weight us) [0..<T]) =
           sum_list (map (\<lambda>u. snd u * (real T - real (fst u))) us)"
  using assms
proof (induction us)
  case Nil
  show ?case by (simp add: step_weight_def)
next
  case (Cons u us)
  have "sum_list (map (step_weight (u # us)) [0..<T]) =
        sum_list (map (\<lambda>s. if fst u \<le> s then snd u else 0) [0..<T])
        + sum_list (map (step_weight us) [0..<T])"
  proof -
    have "step_weight (u # us) = (\<lambda>s. (if fst u \<le> s then snd u else 0) + step_weight us s)"
      by (rule ext) (simp add: step_weight_Cons)
    then show ?thesis by (simp add: sum_list_addf)
  qed
  also have "\<dots> = snd u * (real T - real (fst u))
        + sum_list (map (\<lambda>u. snd u * (real T - real (fst u))) us)"
    using Cons single_step_sum [of "fst u" T "snd u"] by simp
  finally show ?case by simp
qed

text \<open>
  Claim C3.  For a cell that starts at zero and receives the deltas \<open>d_1 .. d_k\<close> at
  strictly increasing times \<open>t_1 < ... < t_k\<close> through \<open>Update\<close>, and for any
  \<open>T > t_k\<close>, \<open>GetAverage\<close> at \<open>T\<close> is the time-weighted mean over \<open>[0, T)\<close> of the step
  function of the true weight: lazy freshening followed by normalisation by the current
  time gives what the direct recomputation gives.  Scalars are real numbers here, so the
  equality is exact.
\<close>

theorem lazy_average_is_direct_average:
  assumes "sorted_wrt (<) (map fst us)" and "\<forall>u \<in> set us. fst u < T"
  shows "fst (GetAverage (apply_updates zero_cell us) T) = direct_average us T"
proof -
  have le: "\<forall>u \<in> set us. fst u \<le> T" using assms(2) by auto
  have "averaged_weight (Freshen (apply_updates zero_cell us) T) =
        sum_list (map (\<lambda>u. snd u * (real T - real (fst u))) us)"
    by (simp add: lazy_sum zero_cell_def)
  then show ?thesis
    by (simp add: GetAverage_def Let_def direct_average_def direct_sum [OF le])
qed

theorem lazy_average_is_direct_average_witness:
  "sorted_wrt (<) (map fst [(1 :: nat, 2 :: real), (3, - 1)]) \<and>
   fst (GetAverage (apply_updates zero_cell [(1, 2), (3, - 1)]) 5) = 6 / 5 \<and>
   direct_average [(1, 2), (3, - 1)] 5 = 6 / 5"
proof -
  have d: "direct_average [(1, 2), (3, - 1)] 5 = 6 / 5"
    by code_simp
  from lazy_average_is_direct_average [of "[(1, 2), (3, - 1)]" 5] d
  show ?thesis by simp
qed

text \<open>
  Claim C6.  At current time 0, \<open>get_average\<close> returns exactly 0, on a cell that has
  received no update as on any other cell, and the division by the current time is not
  performed: at no time does the guarded computation run into a division by zero, and
  its value is the one \<open>GetAverage\<close> denotes.  The division itself has no result at time 0,
  so it is the guard that keeps it from being performed.
\<close>

theorem GetAverage_at_time_zero:
  "GetAverage_checked zero_cell 0 = Inr (0, zero_cell) \<and>
   GetAverage_checked c 0 = Inr (0, Freshen c 0) \<and>
   GetAverage_checked c t \<noteq> Inl DivisionByZero \<and>
   GetAverage_checked c t = Inr (GetAverage c t) \<and>
   fst (GetAverage c 0) = 0 \<and>
   checked_divide (averaged_weight (Freshen c 0)) 0 = Inl DivisionByZero"
proof (intro conjI)
  show "GetAverage_checked zero_cell 0 = Inr (0, zero_cell)"
    by (simp add: GetAverage_checked_def Freshen_def zero_cell_def)
  show "GetAverage_checked c 0 = Inr (0, Freshen c 0)"
    by (simp add: GetAverage_checked_def)
  show same: "GetAverage_checked c t = Inr (GetAverage c t)"
    by (simp add: GetAverage_checked_def GetAverage_def checked_divide_def Let_def)
  then show "GetAverage_checked c t \<noteq> Inl DivisionByZero"
    by simp
  show "fst (GetAverage c 0) = 0"
    by (simp add: GetAverage_def Let_def)
  show "checked_divide (averaged_weight (Freshen c 0)) 0 = Inl DivisionByZero"
    by (simp add: checked_divide_def)
qed

section \<open>One training step\<close>

subsection \<open>Scoring and the argmax\<close>

lemma score_cell_loop:
  assumes "n \<le> length row" "n \<le> length scores"
  shows "\<exists>scores'. for_each [0..<n] (score_cell row) scores = Inr scores' \<and>
           length scores' = length scores"
  using assms
proof (induction n)
  case 0
  show ?case by simp
next
  case (Suc n)
  then obtain sc where sc: "for_each [0..<n] (score_cell row) scores = Inr sc"
      "length sc = length scores"
    by auto
  have "score_cell row n sc = Inr (sc[n := sc ! n + Get (row ! n)])"
    using Suc.prems sc(2) by (simp add: score_cell_def index_at_def assign_at_def)
  then show ?case using sc by (simp add: for_each_append)
qed

lemma Score_ok:
  assumes "shape tbl n m" "\<forall>f \<in> set features. f < n" "length scores = m"
  shows "\<exists>scores'. for_each features (score_feature tbl m) scores = Inr scores' \<and>
           length scores' = m"
  using assms(2,3)
proof (induction features arbitrary: scores)
  case Nil
  then show ?case by simp
next
  case (Cons f features)
  have f: "f < length tbl" "length (tbl ! f) = m"
    using Cons.prems(1) assms(1) by (simp_all add: shape_def)
  obtain sc where sc: "for_each [0..<m] (score_cell (tbl ! f)) scores = Inr sc"
      "length sc = length scores"
    using score_cell_loop [of m "tbl ! f" scores] f Cons.prems(2) by auto
  have step: "score_feature tbl m f scores = Inr sc"
    using f sc by (simp add: score_feature_def index_at_def)
  show ?case
    using Cons.IH [of sc] Cons.prems sc(2) by (simp add: step)
qed

lemma Score_sd_ok:
  assumes "\<forall>row \<in> set (map snd tbl). length row = m" "length scores = m"
  shows "\<exists>scores'. for_each features (score_feature_sd tbl m) scores = Inr scores' \<and>
           length scores' = m"
  using assms(2)
proof (induction features arbitrary: scores)
  case Nil
  then show ?case by simp
next
  case (Cons f features)
  have "\<exists>sc. score_feature_sd tbl m f scores = Inr sc \<and> length sc = m"
  proof (cases "map_of tbl f")
    case None
    then show ?thesis using Cons.prems by (simp add: score_feature_sd_def)
  next
    case (Some row)
    then have "(f, row) \<in> set tbl" by (rule map_of_SomeD)
    then have "length row = m" using assms(1) by force
    then show ?thesis
      using score_cell_loop [of m row scores] Cons.prems Some
      by (auto simp: score_feature_sd_def)
  qed
  then obtain sc where sc: "score_feature_sd tbl m f scores = Inr sc" "length sc = m"
    by auto
  show ?case using Cons.IH [OF sc(2)] by (simp add: sc(1))
qed

lemma fold_pick_mem: "fold (\<lambda>j best. if P best j then j else best) js b \<in> insert b (set js)"
  by (induction js arbitrary: b) auto

lemma ArgMax_ok:
  assumes "scores \<noteq> []"
  shows "\<exists>y. ArgMax scores = Inr y \<and> y < length scores"
proof -
  have "fold (\<lambda>j best. if scores ! best < scores ! j then j else best) [0..<length scores] 0
          \<in> insert 0 (set [0..<length scores])"
    by (rule fold_pick_mem)
  then show ?thesis using assms by (auto simp: ArgMax_def)
qed

lemma Predict_ok:
  assumes "dense_wf m" "\<forall>f \<in> set features. f < outer_size m" "0 < inner_size m"
  shows "\<exists>y. Predict m features = Inr y \<and> y < inner_size m"
proof -
  have "shape (table m) (outer_size m) (inner_size m)"
    using assms(1) by (simp add: shape_def dense_wf_def)
  then obtain sc where sc: "Score m features = Inr sc" "length sc = inner_size m"
    using Score_ok [of "table m" "outer_size m" "inner_size m" features
        "replicate (inner_size m) 0"] assms(2)
    by (auto simp: Score_def)
  then have "sc \<noteq> []" using assms(3) by auto
  then show ?thesis using ArgMax_ok [of sc] sc by (auto simp: Predict_def)
qed

lemma Predict_sd_ok:
  assumes "sparse_dense_wf m" "0 < inner_size m"
  shows "\<exists>y. Predict_sd m features = Inr y \<and> y < inner_size m"
proof -
  obtain sc where sc: "Score_sd m features = Inr sc" "length sc = inner_size m"
    using Score_sd_ok [of "table m" "inner_size m" "replicate (inner_size m) 0" features]
      assms(1)
    by (auto simp: Score_sd_def sparse_dense_wf_def)
  then have "sc \<noteq> []" using assms(2) by auto
  then show ?thesis using ArgMax_ok [of sc] sc by (auto simp: Predict_sd_def)
qed

subsection \<open>The update of one row\<close>

lemma final_cell_add:
  "final_cell now gold yhat k j (final_cell now gold yhat k' j c) =
     final_cell now gold yhat (k + k') j c"
  by (simp add: final_cell_def funpow_add)

lemma final_cell_0: "final_cell now gold yhat 0 j c = c"
  by (simp add: final_cell_def)

lemma update_row_ok:
  assumes "length row = m" "gold < m" "yhat < m" "gold \<noteq> yhat"
  shows "\<exists>row2. update_row now gold yhat row = Inr row2 \<and> length row2 = m \<and>
           (\<forall>j<m. row2 ! j = final_cell now gold yhat 1 j (row ! j))"
proof -
  let ?row1 = "row[gold := Update (row ! gold) 1 now]"
  let ?row2 = "?row1[yhat := Update (?row1 ! yhat) (- 1) now]"
  have eq: "update_row now gold yhat row = Inr ?row2"
    using assms(1,2,3) by (simp add: update_row_def index_at_def assign_at_def)
  have cells: "?row2 ! j = final_cell now gold yhat 1 j (row ! j)" if "j < m" for j
    using that assms by (simp add: final_cell_def nth_list_update)
  show ?thesis using eq cells assms(1) by simp
qed

subsection \<open>Dense outer table\<close>

lemma update_feature_ok:
  assumes "shape tbl n m" "f < n" "gold < m" "yhat < m" "gold \<noteq> yhat"
  shows "\<exists>tbl'. update_feature now gold yhat f tbl = Inr tbl' \<and> shape tbl' n m \<and>
           (\<forall>i<n. \<forall>j<m. tbl' ! i ! j =
              final_cell now gold yhat (if i = f then 1 else 0) j (tbl ! i ! j))"
proof -
  have f: "f < length tbl" "length (tbl ! f) = m"
    using assms(1,2) by (simp_all add: shape_def)
  obtain row2 where row2: "update_row now gold yhat (tbl ! f) = Inr row2" "length row2 = m"
      "\<forall>j<m. row2 ! j = final_cell now gold yhat 1 j (tbl ! f ! j)"
    using update_row_ok [OF f(2) assms(3,4,5), of now] by auto
  have eq: "update_feature now gold yhat f tbl = Inr (tbl[f := row2])"
    using f row2(1) by (simp add: update_feature_def index_at_def)
  have sh: "shape (tbl[f := row2]) n m"
    using assms(1) row2(2) by (auto simp: shape_def dest!: set_update_subset_insert [THEN subsetD])
  have cells: "(tbl[f := row2]) ! i ! j =
      final_cell now gold yhat (if i = f then 1 else 0) j (tbl ! i ! j)"
    if "i < n" "j < m" for i j
    using that f row2(3) assms(1) by (simp add: nth_list_update final_cell_0 shape_def)
  show ?thesis using eq sh cells by simp
qed

lemma update_loop:
  assumes "shape tbl n m" "\<forall>f \<in> set features. f < n" "gold < m" "yhat < m" "gold \<noteq> yhat"
  shows "\<exists>tbl'. for_each features (update_feature now gold yhat) tbl = Inr tbl' \<and>
           shape tbl' n m \<and>
           (\<forall>i<n. \<forall>j<m. tbl' ! i ! j =
              final_cell now gold yhat (count_list features i) j (tbl ! i ! j))"
  using assms(1,2)
proof (induction features arbitrary: tbl)
  case Nil
  then show ?case by (simp add: final_cell_0)
next
  case (Cons f features)
  obtain tbl1 where step: "update_feature now gold yhat f tbl = Inr tbl1" "shape tbl1 n m"
      "\<forall>i<n. \<forall>j<m. tbl1 ! i ! j =
              final_cell now gold yhat (if i = f then 1 else 0) j (tbl ! i ! j)"
    using update_feature_ok [OF Cons.prems(1) _ assms(3,4,5), of f now] Cons.prems(2) by auto
  obtain tbl' where rest: "for_each features (update_feature now gold yhat) tbl1 = Inr tbl'"
      "shape tbl' n m"
      "\<forall>i<n. \<forall>j<m. tbl' ! i ! j =
              final_cell now gold yhat (count_list features i) j (tbl1 ! i ! j)"
    using Cons.IH [OF step(2)] Cons.prems(2) by auto
  have "tbl' ! i ! j = final_cell now gold yhat (count_list (f # features) i) j (tbl ! i ! j)"
    if "i < n" "j < m" for i j
    using rest(3) step(3) that by (simp add: final_cell_add)
  then show ?case using step(1) rest(1,2) by simp
qed

subsection \<open>Sparse outer table, dense inner tables\<close>

lemma mutable_update:
  "mutable (AList.update k v tbl) k' d = (if k' = k then v else mutable tbl k' d)"
  by (simp add: mutable_def update_conv')

lemma row_of_length:
  assumes "rows_ok tbl m"
  shows "length (row_of tbl m f) = m"
proof -
  from mutable_cases [of tbl f "replicate m zero_cell"] show ?thesis
  proof
    assume "mutable tbl f (replicate m zero_cell) = replicate m zero_cell"
    then show ?thesis by (simp add: row_of_def)
  next
    assume "(f, mutable tbl f (replicate m zero_cell)) \<in> set tbl"
    then show ?thesis using assms by (force simp: rows_ok_def row_of_def)
  qed
qed

lemma rows_ok_update:
  assumes "rows_ok tbl m" "length row = m"
  shows "rows_ok (AList.update f row tbl) m"
proof -
  have "distinct (map fst (AList.update f row tbl))"
    using assms(1) by (simp add: rows_ok_def distinct_update)
  moreover have "length r = m" if "r \<in> snd ` set (AList.update f row tbl)" for r
  proof -
    from that obtain k where "(k, r) \<in> set (AList.update f row tbl)" by force
    then have "(k, r) = (f, row) \<or> (k, r) \<in> set tbl"
      using update_set_subset [of f row tbl] by blast
    then show ?thesis using assms by (force simp: rows_ok_def)
  qed
  ultimately show ?thesis by (simp add: rows_ok_def)
qed

lemma update_feature_sd_ok:
  assumes "rows_ok tbl m" "gold < m" "yhat < m" "gold \<noteq> yhat"
  shows "\<exists>tbl'. update_feature_sd now m gold yhat f tbl = Inr tbl' \<and> rows_ok tbl' m \<and>
           fst ` set tbl' = insert f (fst ` set tbl) \<and>
           (\<forall>k. \<forall>j<m. row_of tbl' m k ! j =
              final_cell now gold yhat (if k = f then 1 else 0) j (row_of tbl m k ! j))"
proof -
  obtain row2 where row2: "update_row now gold yhat (row_of tbl m f) = Inr row2"
      "length row2 = m"
      "\<forall>j<m. row2 ! j = final_cell now gold yhat 1 j (row_of tbl m f ! j)"
    using update_row_ok [OF row_of_length [OF assms(1), of f] assms(2,3,4), of now] by auto
  have eq: "update_feature_sd now m gold yhat f tbl = Inr (AList.update f row2 tbl)"
    using row2(1) by (simp add: update_feature_sd_def)
  have ok: "rows_ok (AList.update f row2 tbl) m"
    using rows_ok_update [OF assms(1) row2(2)] .
  have keys: "fst ` set (AList.update f row2 tbl) = insert f (fst ` set tbl)"
    by (rule update_keys_set)
  have cells: "row_of (AList.update f row2 tbl) m k ! j =
      final_cell now gold yhat (if k = f then 1 else 0) j (row_of tbl m k ! j)"
    if "j < m" for k j
    using that row2(3) by (simp add: row_of_def mutable_update final_cell_0)
  show ?thesis using eq ok keys cells by simp
qed

lemma update_sd_loop:
  assumes "rows_ok tbl m" "gold < m" "yhat < m" "gold \<noteq> yhat"
  shows "\<exists>tbl'. for_each features (update_feature_sd now m gold yhat) tbl = Inr tbl' \<and>
           rows_ok tbl' m \<and>
           fst ` set tbl' = fst ` set tbl \<union> set features \<and>
           (\<forall>k. \<forall>j<m. row_of tbl' m k ! j =
              final_cell now gold yhat (count_list features k) j (row_of tbl m k ! j))"
  using assms(1)
proof (induction features arbitrary: tbl)
  case Nil
  then show ?case by (simp add: final_cell_0)
next
  case (Cons f features)
  obtain tbl1 where step: "update_feature_sd now m gold yhat f tbl = Inr tbl1"
      "rows_ok tbl1 m" "fst ` set tbl1 = insert f (fst ` set tbl)"
      "\<forall>k. \<forall>j<m. row_of tbl1 m k ! j =
              final_cell now gold yhat (if k = f then 1 else 0) j (row_of tbl m k ! j)"
    using update_feature_sd_ok [OF Cons.prems assms(2,3,4), where now = now and f = f] by auto
  obtain tbl' where rest:
      "for_each features (update_feature_sd now m gold yhat) tbl1 = Inr tbl'"
      "rows_ok tbl' m" "fst ` set tbl' = fst ` set tbl1 \<union> set features"
      "\<forall>k. \<forall>j<m. row_of tbl' m k ! j =
              final_cell now gold yhat (count_list features k) j (row_of tbl1 m k ! j)"
    using Cons.IH [OF step(2)] by auto
  have "row_of tbl' m k ! j =
      final_cell now gold yhat (count_list (f # features) k) j (row_of tbl m k ! j)"
    if "j < m" for k j
    using rest(4) step(4) that by (simp add: final_cell_add)
  moreover have "fst ` set tbl' = fst ` set tbl \<union> set (f # features)"
    using rest(3) step(3) by auto
  ultimately show ?case using step(1) rest(1,2) by simp
qed

subsection \<open>Fully sparse table\<close>

lemma cell_or_zero_mutable:
  "cell_or_zero tbl f l = mutable (mutable tbl f []) l zero_cell"
  by (simp add: cell_or_zero_def cell_def mutable_def split: option.split)

lemma update_feature_ss_cells:
  assumes "gold \<noteq> yhat"
  shows "cell_or_zero (update_feature_ss now gold yhat f tbl) k l =
           final_cell now gold yhat (if k = f then 1 else 0) l (cell_or_zero tbl k l)"
  using assms
  by (simp add: cell_or_zero_mutable update_feature_ss_def Let_def mutable_update final_cell_def)

lemma inner_distinct:
  assumes "inners_ok tbl"
  shows "distinct (map fst (mutable tbl f []))"
proof -
  from mutable_cases [of tbl f "[]"] show ?thesis
  proof
    assume "mutable tbl f [] = []"
    then show ?thesis by simp
  next
    assume "(f, mutable tbl f []) \<in> set tbl"
    then show ?thesis using assms by (force simp: inners_ok_def)
  qed
qed

lemma update_feature_ss_ok:
  assumes "inners_ok tbl"
  shows "inners_ok (update_feature_ss now gold yhat f tbl)"
proof -
  let ?inner = "mutable tbl f []"
  let ?inner1 = "AList.update gold (Update (mutable ?inner gold zero_cell) 1 now) ?inner"
  let ?inner2 = "AList.update yhat (Update (mutable ?inner1 yhat zero_cell) (- 1) now) ?inner1"
  have d2: "distinct (map fst ?inner2)"
    using inner_distinct [OF assms, of f] by (simp add: distinct_update)
  have eq: "update_feature_ss now gold yhat f tbl = AList.update f ?inner2 tbl"
    by (simp add: update_feature_ss_def Let_def)
  have "distinct (map fst (AList.update f ?inner2 tbl))"
    using assms by (simp add: inners_ok_def distinct_update)
  moreover have "distinct (map fst r)" if "r \<in> snd ` set (AList.update f ?inner2 tbl)" for r
  proof -
    from that obtain k where "(k, r) \<in> set (AList.update f ?inner2 tbl)" by force
    then have "(k, r) = (f, ?inner2) \<or> (k, r) \<in> set tbl"
      using update_set_subset [of f ?inner2 tbl] by blast
    then show ?thesis using assms d2 by (force simp: inners_ok_def)
  qed
  ultimately show ?thesis by (simp add: eq inners_ok_def)
qed

lemma update_ss_loop:
  assumes "inners_ok tbl" "gold \<noteq> yhat"
  shows "inners_ok (fold (update_feature_ss now gold yhat) features tbl) \<and>
         (\<forall>k l. cell_or_zero (fold (update_feature_ss now gold yhat) features tbl) k l =
            final_cell now gold yhat (count_list features k) l (cell_or_zero tbl k l))"
  using assms(1)
proof (induction features arbitrary: tbl)
  case Nil
  then show ?case by (simp add: final_cell_0)
next
  case (Cons f features)
  have ok1: "inners_ok (update_feature_ss now gold yhat f tbl)"
    using update_feature_ss_ok [OF Cons.prems] .
  show ?case
    using Cons.IH [OF ok1]
    by (simp add: update_feature_ss_cells [OF assms(2)] final_cell_add)
qed

subsection \<open>What repeated updates at one time make of a cell\<close>

lemma funpow_Update:
  assumes "0 < k"
  shows "((\<lambda>c. Update c d now) ^^ k) c =
           \<lparr>true_weight = true_weight c + real k * d,
            averaged_weight =
              averaged_weight c + (real now - real (last_update_time c)) * true_weight c,
            last_update_time = now\<rparr>"
  using assms
proof (induction k)
  case 0
  then show ?case by simp
next
  case (Suc k)
  show ?case
  proof (cases "k = 0")
    case True
    then show ?thesis by (simp add: Update_def Let_def Freshen_def)
  next
    case False
    then show ?thesis
      using Suc.IH by (simp add: Update_def Let_def Freshen_def algebra_simps)
  qed
qed

subsection \<open>The training step\<close>

lemma Get_final_cell:
  "gold \<noteq> yhat \<Longrightarrow> Get (final_cell now gold yhat k j c) =
     Get c + real k * ((if j = gold then 1 else 0) - (if j = yhat then 1 else 0))"
proof -
  have "Get (((\<lambda>c. Update c d now) ^^ k) c) = Get c + real k * d" for d
    by (induction k) (simp_all add: Get_def Update_def Let_def Freshen_def algebra_simps)
  then show "gold \<noteq> yhat \<Longrightarrow> ?thesis"
    by (simp add: final_cell_def)
qed

text \<open>
  Claim C5.  For every feature sequence and gold label, \<open>train_one\<close> computes the
  prediction with the current weights and returns it.  On a mistake every listed
  feature's gold-label cell receives +1 and its predicted-label cell -1, once per listing
  and each through \<open>Update\<close> at the current time, so that the cell is freshened to the
  current time before its true weight changes; every other cell is as before.  Without a
  mistake the table is unchanged.  In both cases the clock advances by exactly 1.  This
  holds on the dense topology (for features the table has), on the sparse/dense topology
  and on the fully sparse topology, where absent rows and cells read as zero cells and are
  created by the update, and where the prediction rule for string labels is a parameter.
  The last two parts of the statement say what \<open>final_cell\<close> is: the true weight moved by
  the number of updates, the cached sum freshened once, the time stamp at the current
  time.  In particular, on the all-zero dense model with 3 features and 2 labels,
  \<open>train_one [0, 1]\<close> with gold label 1 predicts label 0, leaves the true weights of label 1
  at 1 and of label 0 at -1 for the features 0 and 1, and the clock at 1.
\<close>

theorem train_one_step:
  "(dense_wf m_d \<and> (\<forall>f \<in> set fs_d. f < outer_size m_d) \<and> gold_d < inner_size m_d \<longrightarrow>
      (\<exists>yhat m'. Predict m_d fs_d = Inr yhat \<and> train_one m_d fs_d gold_d = Inr (yhat, m') \<and>
         time m' = time m_d + 1 \<and>
         outer_size m' = outer_size m_d \<and> inner_size m' = inner_size m_d \<and> dense_wf m' \<and>
         (yhat = gold_d \<longrightarrow> table m' = table m_d) \<and>
         (yhat \<noteq> gold_d \<longrightarrow>
            (\<forall>i<outer_size m_d. \<forall>j<inner_size m_d.
               table m' ! i ! j =
                 final_cell (time m_d) gold_d yhat (count_list fs_d i) j (table m_d ! i ! j))))) \<and>
   (sparse_dense_wf m_sd \<and> gold_sd < inner_size m_sd \<longrightarrow>
      (\<exists>yhat m'. Predict_sd m_sd fs_sd = Inr yhat \<and>
         train_one_sd m_sd fs_sd gold_sd = Inr (yhat, m') \<and>
         time m' = time m_sd + 1 \<and> inner_size m' = inner_size m_sd \<and> sparse_dense_wf m' \<and>
         (yhat = gold_sd \<longrightarrow> table m' = table m_sd) \<and>
         (yhat \<noteq> gold_sd \<longrightarrow>
            fst ` set (table m') = fst ` set (table m_sd) \<union> set fs_sd \<and>
            (\<forall>k. \<forall>j<inner_size m_sd.
               row_of (table m') (inner_size m_sd) k ! j =
                 final_cell (time m_sd) gold_sd yhat (count_list fs_sd k) j
                   (row_of (table m_sd) (inner_size m_sd) k ! j))))) \<and>
   (sparse_wf m_s \<longrightarrow>
      (\<exists>m'. train_one_ss predict m_s fs_s gold_s = (predict m_s fs_s, m') \<and>
         time m' = time m_s + 1 \<and> inner_size m' = inner_size m_s \<and> sparse_wf m' \<and>
         (predict m_s fs_s = gold_s \<longrightarrow> table m' = table m_s) \<and>
         (predict m_s fs_s \<noteq> gold_s \<longrightarrow>
            (\<forall>k l. cell_or_zero (table m') k l =
               final_cell (time m_s) gold_s (predict m_s fs_s) (count_list fs_s k) l
                 (cell_or_zero (table m_s) k l))))) \<and>
   (gold \<noteq> yhat \<longrightarrow>
      Get (final_cell now gold yhat k j c) =
        Get c + real k * ((if j = gold then 1 else 0) - (if j = yhat then 1 else 0))) \<and>
   (gold \<noteq> yhat \<and> 0 < k \<longrightarrow>
      final_cell now gold yhat k gold c =
        \<lparr>true_weight = true_weight c + real k,
         averaged_weight =
           averaged_weight c + (real now - real (last_update_time c)) * true_weight c,
         last_update_time = now\<rparr> \<and>
      final_cell now gold yhat k yhat c =
        \<lparr>true_weight = true_weight c - real k,
         averaged_weight =
           averaged_weight c + (real now - real (last_update_time c)) * true_weight c,
         last_update_time = now\<rparr>) \<and>
   train_one (Dense_Averaged 3 2) [0, 1] 1 = Inr (0, trained_example)"
proof (intro conjI impI)
  assume a: "dense_wf m_d \<and> (\<forall>f \<in> set fs_d. f < outer_size m_d) \<and> gold_d < inner_size m_d"
  then have wf: "dense_wf m_d" and feats: "\<forall>f \<in> set fs_d. f < outer_size m_d"
    and gold: "gold_d < inner_size m_d"
    by simp_all
  obtain yhat where yhat: "Predict m_d fs_d = Inr yhat" "yhat < inner_size m_d"
    using Predict_ok [OF wf feats] gold by auto
  have sh: "shape (table m_d) (outer_size m_d) (inner_size m_d)"
    using wf by (simp add: shape_def dense_wf_def)
  show "\<exists>yhat m'. Predict m_d fs_d = Inr yhat \<and> train_one m_d fs_d gold_d = Inr (yhat, m') \<and>
         time m' = time m_d + 1 \<and>
         outer_size m' = outer_size m_d \<and> inner_size m' = inner_size m_d \<and> dense_wf m' \<and>
         (yhat = gold_d \<longrightarrow> table m' = table m_d) \<and>
         (yhat \<noteq> gold_d \<longrightarrow>
            (\<forall>i<outer_size m_d. \<forall>j<inner_size m_d.
               table m' ! i ! j =
                 final_cell (time m_d) gold_d yhat (count_list fs_d i) j (table m_d ! i ! j)))"
  proof (cases "yhat = gold_d")
    case True
    have "train_one m_d fs_d gold_d
        = Inr (yhat, m_d\<lparr>table := table m_d, time := time m_d + 1\<rparr>)"
      using yhat(1) True by (simp add: train_one_def)
    then show ?thesis
      using yhat(1) True wf by (auto simp: dense_wf_def)
  next
    case False
    then have ne: "gold_d \<noteq> yhat" by simp
    obtain tbl' where loop:
        "for_each fs_d (update_feature (time m_d) gold_d yhat) (table m_d) = Inr tbl'"
        "shape tbl' (outer_size m_d) (inner_size m_d)"
        "\<forall>i<outer_size m_d. \<forall>j<inner_size m_d. tbl' ! i ! j =
              final_cell (time m_d) gold_d yhat (count_list fs_d i) j (table m_d ! i ! j)"
      using update_loop [OF sh feats gold yhat(2) ne, of "time m_d"] by auto
    have tr: "train_one m_d fs_d gold_d
        = Inr (yhat, m_d\<lparr>table := tbl', time := time m_d + 1\<rparr>)"
      using yhat(1) False loop(1) by (simp add: train_one_def)
    have wf': "dense_wf (m_d\<lparr>table := tbl', time := time m_d + 1\<rparr>)"
      using loop(2) by (simp add: dense_wf_def shape_def)
    show ?thesis
      using yhat(1) tr False loop(3) wf' by simp
  qed
next
  assume a: "sparse_dense_wf m_sd \<and> gold_sd < inner_size m_sd"
  then have wf: "sparse_dense_wf m_sd" and gold: "gold_sd < inner_size m_sd"
    by simp_all
  obtain yhat where yhat: "Predict_sd m_sd fs_sd = Inr yhat" "yhat < inner_size m_sd"
    using Predict_sd_ok [OF wf, of fs_sd] gold by auto
  have ok: "rows_ok (table m_sd) (inner_size m_sd)"
    using wf by (simp add: rows_ok_def sparse_dense_wf_def)
  show "\<exists>yhat m'. Predict_sd m_sd fs_sd = Inr yhat \<and>
         train_one_sd m_sd fs_sd gold_sd = Inr (yhat, m') \<and>
         time m' = time m_sd + 1 \<and> inner_size m' = inner_size m_sd \<and> sparse_dense_wf m' \<and>
         (yhat = gold_sd \<longrightarrow> table m' = table m_sd) \<and>
         (yhat \<noteq> gold_sd \<longrightarrow>
            fst ` set (table m') = fst ` set (table m_sd) \<union> set fs_sd \<and>
            (\<forall>k. \<forall>j<inner_size m_sd.
               row_of (table m') (inner_size m_sd) k ! j =
                 final_cell (time m_sd) gold_sd yhat (count_list fs_sd k) j
                   (row_of (table m_sd) (inner_size m_sd) k ! j)))"
  proof (cases "yhat = gold_sd")
    case True
    have "train_one_sd m_sd fs_sd gold_sd
        = Inr (yhat, m_sd\<lparr>table := table m_sd, time := time m_sd + 1\<rparr>)"
      using yhat(1) True by (simp add: train_one_sd_def)
    then show ?thesis
      using yhat(1) True wf by (auto simp: sparse_dense_wf_def)
  next
    case False
    then have ne: "gold_sd \<noteq> yhat" by simp
    obtain tbl' where loop:
        "for_each fs_sd (update_feature_sd (time m_sd) (inner_size m_sd) gold_sd yhat)
           (table m_sd) = Inr tbl'"
        "rows_ok tbl' (inner_size m_sd)"
        "fst ` set tbl' = fst ` set (table m_sd) \<union> set fs_sd"
        "\<forall>k. \<forall>j<inner_size m_sd. row_of tbl' (inner_size m_sd) k ! j =
              final_cell (time m_sd) gold_sd yhat (count_list fs_sd k) j
                (row_of (table m_sd) (inner_size m_sd) k ! j)"
      using update_sd_loop [OF ok gold yhat(2) ne, of fs_sd "time m_sd"] by auto
    have tr: "train_one_sd m_sd fs_sd gold_sd
        = Inr (yhat, m_sd\<lparr>table := tbl', time := time m_sd + 1\<rparr>)"
      using yhat(1) False loop(1) by (simp add: train_one_sd_def)
    have wf': "sparse_dense_wf (m_sd\<lparr>table := tbl', time := time m_sd + 1\<rparr>)"
      using loop(2) by (simp add: sparse_dense_wf_def rows_ok_def)
    show ?thesis
      using yhat(1) tr False loop(3,4) wf' by simp
  qed
next
  assume wf: "sparse_wf m_s"
  then have ok: "inners_ok (table m_s)"
    by (simp add: inners_ok_def sparse_wf_def)
  let ?yhat = "predict m_s fs_s"
  show "\<exists>m'. train_one_ss predict m_s fs_s gold_s = (predict m_s fs_s, m') \<and>
         time m' = time m_s + 1 \<and> inner_size m' = inner_size m_s \<and> sparse_wf m' \<and>
         (predict m_s fs_s = gold_s \<longrightarrow> table m' = table m_s) \<and>
         (predict m_s fs_s \<noteq> gold_s \<longrightarrow>
            (\<forall>k l. cell_or_zero (table m') k l =
               final_cell (time m_s) gold_s (predict m_s fs_s) (count_list fs_s k) l
                 (cell_or_zero (table m_s) k l)))"
  proof (cases "?yhat = gold_s")
    case True
    then show ?thesis
      using wf by (simp add: train_one_ss_def Let_def sparse_wf_def)
  next
    case False
    then have ne: "gold_s \<noteq> ?yhat" by simp
    let ?tbl' = "fold (update_feature_ss (time m_s) gold_s ?yhat) fs_s (table m_s)"
    have loop: "inners_ok ?tbl'"
      "\<forall>k l. cell_or_zero ?tbl' k l =
            final_cell (time m_s) gold_s ?yhat (count_list fs_s k) l (cell_or_zero (table m_s) k l)"
      using update_ss_loop [OF ok ne, of "time m_s" fs_s] by simp_all
    have wf': "sparse_wf (m_s\<lparr>table := ?tbl', time := time m_s + 1\<rparr>)"
      using loop(1) by (simp add: sparse_wf_def inners_ok_def)
    show ?thesis
      using False loop(2) wf' by (simp add: train_one_ss_def Let_def)
  qed
next
  assume "gold \<noteq> yhat"
  then show "Get (final_cell now gold yhat k j c) =
        Get c + real k * ((if j = gold then 1 else 0) - (if j = yhat then 1 else 0))"
    by (rule Get_final_cell)
next
  assume a: "gold \<noteq> yhat \<and> 0 < k"
  then show "final_cell now gold yhat k gold c =
        \<lparr>true_weight = true_weight c + real k,
         averaged_weight =
           averaged_weight c + (real now - real (last_update_time c)) * true_weight c,
         last_update_time = now\<rparr>"
    using funpow_Update [of k 1 now c] by (auto simp: final_cell_def)
  from a show "final_cell now gold yhat k yhat c =
        \<lparr>true_weight = true_weight c - real k,
         averaged_weight =
           averaged_weight c + (real now - real (last_update_time c)) * true_weight c,
         last_update_time = now\<rparr>"
    using funpow_Update [of k "- 1" now c] by (auto simp: final_cell_def)
next
  show "train_one (Dense_Averaged 3 2) [0, 1] 1 = Inr (0, trained_example)"
    by code_simp
qed

theorem train_one_step_witness:
  "dense_wf stale_example \<and>
   train_one stale_example [0, 1] 0 =
     Inr (1, \<lparr>outer_size = 3, inner_size = 2,
              table = [[\<lparr>true_weight = 0, averaged_weight = - 4, last_update_time = 4\<rparr>,
                        \<lparr>true_weight = 0, averaged_weight = 4, last_update_time = 4\<rparr>],
                       [\<lparr>true_weight = 0, averaged_weight = - 4, last_update_time = 4\<rparr>,
                        \<lparr>true_weight = 0, averaged_weight = 4, last_update_time = 4\<rparr>],
                       [zero_cell, zero_cell]],
              time = 5\<rparr>) \<and>
   sparse_dense_wf stale_sd_example \<and>
   train_one_sd stale_sd_example [''bias'', ''tok=foo''] 0 =
     Inr (1, \<lparr>outer_size = 8, inner_size = 2,
              table = [(''bias'',
                        [\<lparr>true_weight = 0, averaged_weight = - 4, last_update_time = 4\<rparr>,
                         \<lparr>true_weight = 0, averaged_weight = 4, last_update_time = 4\<rparr>]),
                       (''tok=foo'',
                        [\<lparr>true_weight = 1, averaged_weight = 0, last_update_time = 4\<rparr>,
                         \<lparr>true_weight = - 1, averaged_weight = 0, last_update_time = 4\<rparr>])],
              time = 5\<rparr>) \<and>
   sparse_wf stale_ss_example \<and>
   train_one_ss predict_example stale_ss_example [''bias''] ''NOUN'' =
     (''VERB'',
      \<lparr>outer_size = 8, inner_size = 2,
       table = [(''bias'',
                 [(''VERB'', \<lparr>true_weight = 0, averaged_weight = 4, last_update_time = 4\<rparr>),
                  (''NOUN'', \<lparr>true_weight = 1, averaged_weight = 0, last_update_time = 4\<rparr>)])],
       time = 5\<rparr>)"
proof -
  have d: "dense_wf stale_example" "\<forall>f \<in> set [0, 1]. f < outer_size stale_example"
    "0 < inner_size stale_example"
    by (simp_all add: dense_wf_def stale_example_def trained_example_def zero_cell_def)
  have sd: "sparse_dense_wf stale_sd_example" "0 < inner_size stale_sd_example"
    by (simp_all add: sparse_dense_wf_def stale_sd_example_def)
  have s: "sparse_wf stale_ss_example"
    by (simp add: sparse_wf_def stale_ss_example_def)
  have rd: "train_one stale_example [0, 1] 0 =
     Inr (1, \<lparr>outer_size = 3, inner_size = 2,
              table = [[\<lparr>true_weight = 0, averaged_weight = - 4, last_update_time = 4\<rparr>,
                        \<lparr>true_weight = 0, averaged_weight = 4, last_update_time = 4\<rparr>],
                       [\<lparr>true_weight = 0, averaged_weight = - 4, last_update_time = 4\<rparr>,
                        \<lparr>true_weight = 0, averaged_weight = 4, last_update_time = 4\<rparr>],
                       [zero_cell, zero_cell]],
              time = 5\<rparr>)"
    by code_simp
  have rsd: "train_one_sd stale_sd_example [''bias'', ''tok=foo''] 0 =
     Inr (1, \<lparr>outer_size = 8, inner_size = 2,
              table = [(''bias'',
                        [\<lparr>true_weight = 0, averaged_weight = - 4, last_update_time = 4\<rparr>,
                         \<lparr>true_weight = 0, averaged_weight = 4, last_update_time = 4\<rparr>]),
                       (''tok=foo'',
                        [\<lparr>true_weight = 1, averaged_weight = 0, last_update_time = 4\<rparr>,
                         \<lparr>true_weight = - 1, averaged_weight = 0, last_update_time = 4\<rparr>])],
              time = 5\<rparr>)"
    by code_simp
  have rs: "train_one_ss predict_example stale_ss_example [''bias''] ''NOUN'' =
     (''VERB'',
      \<lparr>outer_size = 8, inner_size = 2,
       table = [(''bias'',
                 [(''VERB'', \<lparr>true_weight = 0, averaged_weight = 4, last_update_time = 4\<rparr>),
                  (''NOUN'', \<lparr>true_weight = 1, averaged_weight = 0, last_update_time = 4\<rparr>)])],
       time = 5\<rparr>)"
    by code_simp
  from train_one_step
      [where m_d = stale_example and fs_d = "[0, 1]" and gold_d = 0
         and m_sd = stale_sd_example and fs_sd = "[''bias'', ''tok=foo'']" and gold_sd = 0
         and m_s = stale_ss_example and predict = predict_example and fs_s = "[''bias'']"
         and gold_s = "''NOUN''"]
    d sd s rd rsd rs
  show ?thesis by simp
qed

end
